theory Spec2Isabelle
  imports Main
begin

section \<open>Python strings and sequences\<close>

text \<open>
  The parser of \<^verbatim>\<open>poker/room/pokerstars.py\<close> works on Python strings with
  \<^verbatim>\<open>str.startswith\<close>, \<^verbatim>\<open>in\<close>, \<^verbatim>\<open>str.find\<close>, slices and
  \<^verbatim>\<open>list.index\<close>. Strings are modelled as \<^typ>\<open>string\<close>; every index that
  Python represents as a possibly negative integer is an \<^typ>\<open>int\<close> here.
\<close>

datatype error =
    RuntimeError       \<comment> \<open>the bare \<^verbatim>\<open>raise\<close> of \<^verbatim>\<open>_parse_actions\<close>\<close>
  | AttributeError     \<comment> \<open>\<^verbatim>\<open>.group\<close> on a failed match, attribute of an unset field\<close>
  | IndexError         \<comment> \<open>list index out of range\<close>
  | ValueError         \<comment> \<open>\<^verbatim>\<open>int('')\<close>, \<^verbatim>\<open>list.index\<close> of an absent element\<close>
  | TypeError          \<comment> \<open>\<^verbatim>\<open>int(None)\<close>, \<^verbatim>\<open>None + str\<close>\<close>
  | LibraryError string \<comment> \<open>an exception raised inside an imported collaborator\<close>

fun startswith :: "string \<Rightarrow> string \<Rightarrow> bool" where
  "startswith s [] = True"
| "startswith [] (p # ps) = False"
| "startswith (c # cs) (p # ps) = (c = p \<and> startswith cs ps)"

text \<open>\<^verbatim>\<open>sub in s\<close>\<close>

fun contains :: "string \<Rightarrow> string \<Rightarrow> bool" where
  "contains [] sub = (sub = [])"
| "contains (c # cs) sub = (startswith (c # cs) sub \<or> contains cs sub)"

text \<open>
  \<^verbatim>\<open>s.find(sub, start)\<close>: the lowest index \<open>i \<ge> start\<close> at which \<open>sub\<close> occurs,
  or \<open>-1\<close>. \<open>find_at s sub i\<close> scans the remainder \<open>s\<close> that begins at index \<open>i\<close>.
\<close>

fun find_at :: "string \<Rightarrow> string \<Rightarrow> nat \<Rightarrow> int" where
  "find_at [] sub i = (if sub = [] then int i else - 1)"
| "find_at (c # cs) sub i = (if startswith (c # cs) sub then int i else find_at cs sub (Suc i))"

definition str_find :: "string \<Rightarrow> string \<Rightarrow> int \<Rightarrow> int" where
  "str_find s sub start =
     (let n = int (length s);
          b = (if start < 0 then max 0 (start + n) else start)
      in if b > n then - 1 else find_at (drop (nat b) s) sub (nat b))"

text \<open>
  A slice \<^verbatim>\<open>s[a:b]\<close>; \<open>None\<close> is an omitted bound. A negative bound counts from the
  end, and every bound is clamped to the sequence.
\<close>

definition slice_bound :: "nat \<Rightarrow> int \<Rightarrow> nat" where
  "slice_bound n i = (if i < 0 then nat (max 0 (i + int n)) else min (nat i) n)"

definition slice :: "'a list \<Rightarrow> int option \<Rightarrow> int option \<Rightarrow> 'a list" where
  "slice s a b =
     (let n = length s;
          lo = (case a of None \<Rightarrow> 0 | Some i \<Rightarrow> slice_bound n i);
          hi = (case b of None \<Rightarrow> n | Some j \<Rightarrow> slice_bound n j)
      in take (hi - lo) (drop lo s))"

text \<open>
  \<^verbatim>\<open>xs.index(x, start)\<close>: the first position \<open>\<ge> start\<close> holding \<open>x\<close>; Python raises
  ValueError when there is none.
\<close>

fun index_at :: "'a list \<Rightarrow> 'a \<Rightarrow> nat \<Rightarrow> error + nat" where
  "index_at [] x i = Inl ValueError"
| "index_at (y # ys) x i = (if y = x then Inr i else index_at ys x (Suc i))"

definition index :: "'a list \<Rightarrow> 'a \<Rightarrow> nat \<Rightarrow> error + nat" where
  "index xs x start = index_at (drop start xs) x start"

text \<open>
  \<^verbatim>\<open>int(s)\<close> for the strings that reach it in this file: each is the text of a
  \<^verbatim>\<open>\d\<close> or \<^verbatim>\<open>\d*\<close> group, a possibly empty run of digits.
\<close>

definition is_digit :: "char \<Rightarrow> bool" where
  "is_digit c = (c \<in> set ''0123456789'')"

definition digit_val :: "char \<Rightarrow> nat" where
  "digit_val c = of_char c - 48"

definition py_int :: "string \<Rightarrow> error + nat" where
  "py_int s =
     (if s \<noteq> [] \<and> list_all is_digit s
      then Inr (foldl (\<lambda>acc c. 10 * acc + digit_val c) 0 s)
      else Inl ValueError)"

section \<open>Regular expressions\<close>

text \<open>
  The grammars of the parser are compiled \<^verbatim>\<open>re\<close> patterns. They use literals,
  \<^verbatim>\<open>.\<close>, \<^verbatim>\<open>\d\<close>, character sets, \<^verbatim>\<open>*\<close> and \<^verbatim>\<open>{2}\<close> on a single-character
  class, groups, one alternation, \<^verbatim>\<open>^\<close>, \<^verbatim>\<open>$\<close>, and a one-character look-behind
  and look-ahead. \<open>rmatch\<close> is the backtracking matcher: it lists every way the
  pattern can match at the current position, in the order in which backtracking
  would try them (greedy repetition longest first, alternatives left to right), so
  the head of the list is the match that \<^verbatim>\<open>re\<close> reports.
\<close>

datatype cls =
    AnyChar            \<comment> \<open>\<^verbatim>\<open>.\<close>: any character except a newline\<close>
  | Digit              \<comment> \<open>\<^verbatim>\<open>\d\<close>\<close>
  | OneOf string       \<comment> \<open>\<^verbatim>\<open>[...]\<close>\<close>

fun cls_match :: "cls \<Rightarrow> char \<Rightarrow> bool" where
  "cls_match AnyChar c = (c \<noteq> CHR 0x0A)"
| "cls_match Digit c = is_digit c"
| "cls_match (OneOf cs) c = (c \<in> set cs)"

datatype regex =
    Lit string
  | One cls
  | Many cls               \<comment> \<open>\<^verbatim>\<open>c*\<close>, greedy\<close>
  | Times nat cls          \<comment> \<open>\<^verbatim>\<open>c{n}\<close>\<close>
  | Seq regex regex
  | Alt regex regex
  | Group string regex     \<comment> \<open>capturing group, under its name or its number\<close>
  | Bol                    \<comment> \<open>\<^verbatim>\<open>^\<close>\<close>
  | Eol                    \<comment> \<open>\<^verbatim>\<open>$\<close>: at the end, or before a final newline\<close>
  | Lookbehind cls         \<comment> \<open>\<^verbatim>\<open>(?<=c)\<close>\<close>
  | Lookahead cls          \<comment> \<open>\<^verbatim>\<open>(?=c)\<close>\<close>

text \<open>
  A matcher state: the character before the current position (\<open>None\<close> at the start
  of the subject), the rest of the subject, and the groups captured so far, latest
  first.
\<close>

type_synonym groups = "(string \<times> string) list"
type_synonym mstate = "char option \<times> string \<times> groups"

fun many :: "cls \<Rightarrow> char option \<Rightarrow> string \<Rightarrow> groups \<Rightarrow> mstate list" where
  "many c p [] g = [(p, [], g)]"
| "many c p (x # xs) g =
     (if cls_match c x then many c (Some x) xs g else []) @ [(p, x # xs, g)]"

fun times_cls :: "nat \<Rightarrow> cls \<Rightarrow> char option \<Rightarrow> string \<Rightarrow> groups \<Rightarrow> mstate list" where
  "times_cls 0 c p r g = [(p, r, g)]"
| "times_cls (Suc n) c p [] g = []"
| "times_cls (Suc n) c p (x # xs) g = (if cls_match c x then times_cls n c (Some x) xs g else [])"

fun rmatch :: "regex \<Rightarrow> mstate \<Rightarrow> mstate list" where
  "rmatch (Lit s) (p, r, g) =
     (if s = [] then [(p, r, g)]
      else if startswith r s then [(Some (last s), drop (length s) r, g)] else [])"
| "rmatch (One c) (p, r, g) =
     (case r of [] \<Rightarrow> [] | x # xs \<Rightarrow> if cls_match c x then [(Some x, xs, g)] else [])"
| "rmatch (Many c) (p, r, g) = many c p r g"
| "rmatch (Times n c) (p, r, g) = times_cls n c p r g"
| "rmatch (Seq a b) m = concat (map (rmatch b) (rmatch a m))"
| "rmatch (Alt a b) m = rmatch a m @ rmatch b m"
| "rmatch (Group k a) (p, r, g) =
     map (\<lambda>(p', r', g'). (p', r', (k, take (length r - length r') r) # g')) (rmatch a (p, r, g))"
| "rmatch Bol (p, r, g) = (if p = None then [(p, r, g)] else [])"
| "rmatch Eol (p, r, g) = (if r = [] \<or> r = [CHR 0x0A] then [(p, r, g)] else [])"
| "rmatch (Lookbehind c) (p, r, g) =
     (case p of None \<Rightarrow> [] | Some x \<Rightarrow> if cls_match c x then [(p, r, g)] else [])"
| "rmatch (Lookahead c) (p, r, g) =
     (case r of [] \<Rightarrow> [] | x # xs \<Rightarrow> if cls_match c x then [(p, r, g)] else [])"

text \<open>\<^verbatim>\<open>pattern.match(s)\<close>: the groups of the first match at position 0, if any.\<close>

definition re_match :: "regex \<Rightarrow> string \<Rightarrow> groups option" where
  "re_match re s = (case rmatch re (None, s, []) of [] \<Rightarrow> None | (p, r, g) # _ \<Rightarrow> Some g)"

text \<open>
  \<^verbatim>\<open>match.group(k)\<close>. Python returns \<^verbatim>\<open>None\<close> for a group that took no part in
  the match; in the grammars of this file every group lies on every path through
  its pattern, so that case does not arise and is given the empty text here.
\<close>

definition match_group :: "groups \<Rightarrow> string \<Rightarrow> string" where
  "match_group g k = (case map_of g k of Some t \<Rightarrow> t | None \<Rightarrow> [])"

text \<open>A sequence of patterns, as they are written one after another.\<close>

fun seqs :: "regex list \<Rightarrow> regex" where
  "seqs [] = Lit []"
| "seqs [r] = r"
| "seqs (r # rs) = Seq r (seqs rs)"


text \<open>
  \<^verbatim>\<open>pattern.findall(s)\<close>, with the scanning loop of the \<^verbatim>\<open>re\<close> module: search from
  the current position for the leftmost match, record its groups, continue at its
  end; after an empty match the next one may not be empty at the same position
  (\<open>adv\<close>).
\<close>

definition advances :: "bool \<Rightarrow> string \<Rightarrow> mstate \<Rightarrow> bool" where
  "advances adv s m = (case m of (p', r', g') \<Rightarrow> \<not> adv \<or> length r' < length s)"

lemma many_rest_le: "(p', r', g') \<in> set (many c p r g) \<Longrightarrow> length r' \<le> length r"
  by (induction c p r g rule: many.induct) (auto split: if_splits)

lemma times_rest_le: "(p', r', g') \<in> set (times_cls n c p r g) \<Longrightarrow> length r' \<le> length r"
  by (induction n c p r g rule: times_cls.induct) (auto split: if_splits)

lemma rmatch_rest_le: "(p', r', g') \<in> set (rmatch re (p, r, g)) \<Longrightarrow> length r' \<le> length r"
proof (induction re arbitrary: p r g p' r' g')
  case (Seq a b)
  then obtain q s h where 1: "(q, s, h) \<in> set (rmatch a (p, r, g))"
    and 2: "(p', r', g') \<in> set (rmatch b (q, s, h))"
    by auto
  from Seq.IH(1)[OF 1] Seq.IH(2)[OF 2] show ?case by simp
next
  case (Alt a b)
  then show ?case by auto
next
  case (Group k a)
  then show ?case by auto
next
  case (Many c)
  then show ?case by (auto dest: many_rest_le)
next
  case (Times n c)
  then show ?case by (auto dest: times_rest_le)
qed (auto split: if_splits list.splits option.splits)

lemma filter_advances_hd:
  assumes "filter (advances adv s) (rmatch re (p, s, [])) = (p', r', g') # ms"
  shows "length r' \<le> length s \<and> (adv \<longrightarrow> length r' < length s)"
proof -
  have "(p', r', g') \<in> set (filter (advances adv s) (rmatch re (p, s, [])))"
    using assms by simp
  then have 1: "(p', r', g') \<in> set (rmatch re (p, s, []))" and 2: "advances adv s (p', r', g')"
    by auto
  from rmatch_rest_le[OF 1] 2 show ?thesis
    by (auto simp: advances_def)
qed

function findall_from :: "regex \<Rightarrow> bool \<Rightarrow> char option \<Rightarrow> string \<Rightarrow> groups list" where
  "findall_from re adv p s =
     (case filter (advances adv s) (rmatch re (p, s, [])) of
        m # _ \<Rightarrow> (case m of (p', r', g') \<Rightarrow> g' # findall_from re (length r' = length s) p' r')
      | [] \<Rightarrow> (case s of [] \<Rightarrow> [] | x # xs \<Rightarrow> findall_from re False (Some x) xs))"
  by pat_completeness auto
termination
  by (relation "measure (\<lambda>(re, adv, p, s). 2 * length s + (if adv then 0 else 1))")
     (auto dest!: filter_advances_hd)

declare findall_from.simps [simp del]

text \<open>For a pattern with exactly one group, \<^verbatim>\<open>findall\<close> returns the texts of that group.\<close>

definition findall :: "regex \<Rightarrow> string \<Rightarrow> string list" where
  "findall re s = map (\<lambda>g. match_group g ''1'') (findall_from re False None s)"


text \<open>\<^verbatim>\<open>xs[i]\<close> and \<^verbatim>\<open>xs[i] = v\<close>; a negative index counts from the end.\<close>

definition getitem :: "'a list \<Rightarrow> int \<Rightarrow> error + 'a" where
  "getitem xs i =
     (let n = int (length xs); j = (if i < 0 then i + n else i)
      in if 0 \<le> j \<and> j < n then Inr (xs ! nat j) else Inl IndexError)"

definition setitem :: "'a list \<Rightarrow> int \<Rightarrow> 'a \<Rightarrow> error + 'a list" where
  "setitem xs i v =
     (let n = int (length xs); j = (if i < 0 then i + n else i)
      in if 0 \<le> j \<and> j < n then Inr (xs[nat j := v]) else Inl IndexError)"

section \<open>Imported collaborators\<close>

text \<open>
  The module imports \<^verbatim>\<open>Decimal\<close> from the standard library and \<^verbatim>\<open>Card\<close>,
  \<^verbatim>\<open>Combo\<close>, \<^verbatim>\<open>GameType\<close>, \<^verbatim>\<open>Game\<close>, \<^verbatim>\<open>Limit\<close>, \<^verbatim>\<open>Currency\<close> and
  \<^verbatim>\<open>Action\<close> from sibling modules that are not part of the source under study. Each
  is a constructor from a string that either returns a value or raises. They are
  parameters of the model, collected in one record; the types of their values are
  type variables (\<open>'d\<close> decimal numbers, \<open>'e\<close> enumeration members, \<open>'t\<close> time
  stamps, \<open>'c\<close> cards, \<open>'k\<close> combos). Every theorem below holds for all of them.
\<close>

text \<open>
  Modelled from the spec: the members of the \<^verbatim>\<open>Action\<close> enumeration (the module
  \<^verbatim>\<open>constants\<close> is missing). The spec lists the kinds Bet, Raise, Call, Check, Fold,
  Return, Win and Muck; the source names \<^verbatim>\<open>Action.RETURN\<close>, \<^verbatim>\<open>Action.WIN\<close> and
  \<^verbatim>\<open>Action.MUCK\<close>.
\<close>

datatype Action = BET | RAISE | CALL | CHECK | FOLD | RETURN | WIN | MUCK

record 'k Player =
  name :: string
  stack :: nat
  seat :: nat
  combo :: "'k option"

record ('d, 'e, 't, 'c, 'k) lib =
  Decimal :: "string \<Rightarrow> error + 'd"
  Decimal_add :: "'d \<Rightarrow> 'd \<Rightarrow> error + 'd"     \<comment> \<open>\<^verbatim>\<open>+\<close> on pot values\<close>
  Action :: "string \<Rightarrow> error + Action"
  Card :: "string \<Rightarrow> error + 'c"
  Combo :: "string \<Rightarrow> error + 'k"
  GameType :: "string \<Rightarrow> error + 'e"
  Game :: "string \<Rightarrow> error + 'e"
  Limit :: "string \<Rightarrow> error + 'e"
  Currency :: "string \<Rightarrow> error + 'e"
  parse_date_value :: "string \<Rightarrow> error + 't"     \<comment> \<open>what \<^verbatim>\<open>_parse_date\<close> stores in \<^verbatim>\<open>self.date\<close>\<close>
  empty_seat :: "nat \<Rightarrow> 'k Player"               \<comment> \<open>the placeholder of a seat index\<close>

section \<open>The flop: \<^verbatim>\<open>class _Flop\<close>\<close>

text \<open>
  An action is the tuple \<^verbatim>\<open>(name, action)\<close> or \<^verbatim>\<open>(name, action, amount)\<close> that the
  source returns; the amount is \<open>None\<close> for the two-element tuple.
\<close>

type_synonym 'd action = "string \<times> Action \<times> 'd option"

record ('d, 'c) Flop =
  initial_pot :: 'd
  pot :: 'd
  actions :: "'d action list option"
  cards :: "('c \<times> 'c \<times> 'c) option"

definition parse_cards ::
  "('d, 'e, 't, 'c, 'k) lib \<Rightarrow> ('d, 'c) Flop \<Rightarrow> string \<Rightarrow> error + ('d, 'c) Flop" where
  "parse_cards env fl boardline =
     (case Card env (slice boardline (Some 1) (Some 3)) of Inl e \<Rightarrow> Inl e | Inr c1 \<Rightarrow>
     (case Card env (slice boardline (Some 4) (Some 6)) of Inl e \<Rightarrow> Inl e | Inr c2 \<Rightarrow>
     (case Card env (slice boardline (Some 7) (Some 9)) of Inl e \<Rightarrow> Inl e | Inr c3 \<Rightarrow>
      Inr (fl\<lparr>cards := Some (c1, c2, c3)\<rparr>))))"

definition parse_uncalled :: "('d, 'e, 't, 'c, 'k) lib \<Rightarrow> string \<Rightarrow> error + 'd action" where
  "parse_uncalled env line =
     (let first_paren_index = str_find line ''('' 0;
          second_paren_index = str_find line '')'' 0;
          amount = slice line (Some (first_paren_index + 1)) (Some second_paren_index);
          name_start_index = str_find line ''to '' 0 + 3;
          nm = slice line (Some name_start_index) None
      in case Decimal env amount of Inl e \<Rightarrow> Inl e | Inr a \<Rightarrow> Inr (nm, RETURN, Some a))"

definition parse_collected ::
  "('d, 'e, 't, 'c, 'k) lib \<Rightarrow> ('d, 'c) Flop \<Rightarrow> string \<Rightarrow> error + ('d, 'c) Flop \<times> 'd action" where
  "parse_collected env fl line =
     (let first_space_index = str_find line '' '' 0;
          nm = slice line None (Some first_space_index);
          second_space_index = str_find line '' '' (first_space_index + 1);
          third_space_index = str_find line '' '' (second_space_index + 1);
          amount = slice line (Some (second_space_index + 1)) (Some third_space_index)
      in case Decimal env amount of Inl e \<Rightarrow> Inl e | Inr a \<Rightarrow>
        (case Decimal_add env (initial_pot fl) a of Inl e \<Rightarrow> Inl e | Inr p \<Rightarrow>
         Inr (fl\<lparr>pot := p\<rparr>, (nm, WIN, Some p))))"

definition parse_muck :: "string \<Rightarrow> 'd action" where
  "parse_muck line =
     (let colon_index = str_find line '':'' 0;
          nm = slice line None (Some colon_index)
      in (nm, MUCK, None))"

definition parse_player_action :: "('d, 'e, 't, 'c, 'k) lib \<Rightarrow> string \<Rightarrow> error + 'd action" where
  "parse_player_action env line =
     (let colon_index = str_find line '':'' 0;
          nm = slice line None (Some colon_index);
          i = str_find line '' '' (colon_index + 2);
          end_action_index = (if i = - 1 then None else Some i)
      in case Action env (slice line (Some (colon_index + 2)) end_action_index) of
           Inl e \<Rightarrow> Inl e
         | Inr act \<Rightarrow>
             (case end_action_index of
                None \<Rightarrow> Inr (nm, act, None)
              | Some j \<Rightarrow>
                  if j \<noteq> 0
                  then (case Decimal env (slice line (Some (j + 1)) None) of
                          Inl e \<Rightarrow> Inl e | Inr a \<Rightarrow> Inr (nm, act, Some a))
                  else Inr (nm, act, None)))"

text \<open>The text \<^verbatim>\<open>doesn't show hand\<close>; \<open>CHR 0x27\<close> is the apostrophe.\<close>

definition no_show_marker :: string where
  "no_show_marker = ''doesn'' @ [CHR 0x27] @ ''t show hand''"

text \<open>
  The loop of \<^verbatim>\<open>_parse_actions\<close>: the flop (whose pot a Win line reassigns), the lines
  still to read, and the actions appended so far.
\<close>

fun parse_actions_loop ::
  "('d, 'e, 't, 'c, 'k) lib \<Rightarrow> ('d, 'c) Flop \<Rightarrow> string list \<Rightarrow> 'd action list
     \<Rightarrow> error + ('d, 'c) Flop \<times> 'd action list" where
  "parse_actions_loop env fl [] acts = Inr (fl, acts)"
| "parse_actions_loop env fl (line # rest) acts =
     (if startswith line ''Uncalled bet''
      then (case parse_uncalled env line of
              Inl e \<Rightarrow> Inl e | Inr a \<Rightarrow> parse_actions_loop env fl rest (acts @ [a]))
      else if contains line ''collected''
      then (case parse_collected env fl line of
              Inl e \<Rightarrow> Inl e | Inr (fl', a) \<Rightarrow> parse_actions_loop env fl' rest (acts @ [a]))
      else if contains line no_show_marker
      then parse_actions_loop env fl rest (acts @ [parse_muck line])
      else if contains line '':''
      then (case parse_player_action env line of
              Inl e \<Rightarrow> Inl e | Inr a \<Rightarrow> parse_actions_loop env fl rest (acts @ [a]))
      else Inl RuntimeError)"

definition parse_actions ::
  "('d, 'e, 't, 'c, 'k) lib \<Rightarrow> ('d, 'c) Flop \<Rightarrow> string list \<Rightarrow> error + ('d, 'c) Flop" where
  "parse_actions env fl actionlines =
     (case parse_actions_loop env fl actionlines [] of
        Inl e \<Rightarrow> Inl e
      | Inr (fl', acts) \<Rightarrow> Inr (fl'\<lparr>actions := (if acts \<noteq> [] then Some acts else None)\<rparr>))"

text \<open>\<^verbatim>\<open>_Flop.__init__(flop, initial_pot)\<close>\<close>

definition Flop_init ::
  "('d, 'e, 't, 'c, 'k) lib \<Rightarrow> string list \<Rightarrow> 'd \<Rightarrow> error + ('d, 'c) Flop" where
  "Flop_init env floplines initial =
     (let fl = \<lparr>initial_pot = initial, pot = initial, actions = None, cards = None\<rparr>
      in case floplines of
           [] \<Rightarrow> Inl IndexError
         | boardline # actionlines \<Rightarrow>
             (case parse_cards env fl boardline of
                Inl e \<Rightarrow> Inl e | Inr fl' \<Rightarrow> parse_actions env fl' actionlines))"


section \<open>The hand history: \<^verbatim>\<open>class PokerStarsHandHistory\<close>\<close>

subsection \<open>The grammars\<close>

text \<open>
  Each pattern is transcribed token by token. A named group keeps its name, an
  unnamed one is called by its number. \<^verbatim>\<open>_header_re\<close> is compiled with
  \<^verbatim>\<open>re.VERBOSE\<close>: blanks and comments of the pattern are dropped and \<^verbatim>\<open>[ ]\<close> is a
  space.
\<close>

definition header_re :: regex where
  "header_re = seqs
     [Bol, Lit ''PokerStars '',
      Lit ''Hand #'', Group ''ident'' (Many Digit), Lit '': '',
      Group ''game_type'' (Lit ''Tournament''), Lit '' '',
      Lit ''#'', Group ''tournament_ident'' (Many Digit), Lit '', '',
      Lit ''$'', Group ''buyin'' (seqs [Many Digit, Lit ''.'', Times 2 Digit]), Lit ''+'',
      Lit ''$'', Group ''rake'' (seqs [Many Digit, Lit ''.'', Times 2 Digit]), Lit '' '',
      Group ''currency'' (Alt (Lit ''USD'') (Lit ''EUR'')), Lit '' '',
      Group ''game'' (Many AnyChar), Lit '' '',
      Group ''limit'' (Lit ''No Limit''), Lit '' '',
      Lit ''- Level '', Group ''tournament_level'' (Many AnyChar), Lit '' '',
      Lit ''('', Group ''sb'' (Many AnyChar), Lit ''/'', Group ''bb'' (Many AnyChar), Lit '')'', Lit '' '',
      Lit ''- '', Many AnyChar, Lit '' '',
      Lit ''['', Group ''date'' (Many AnyChar), Lit '']'', Eol]"

definition table_re :: regex where
  "table_re = seqs
     [Bol, Lit (''Table '' @ [CHR 0x27]), Group ''1'' (Many AnyChar), Lit ([CHR 0x27] @ '' ''),
      Group ''2'' (One Digit), Lit ''-max Seat #'', Group ''button'' (One Digit),
      Lit '' is the button'', Eol]"

definition seat_re :: regex where
  "seat_re = seqs
     [Bol, Lit ''Seat '', Group ''seat'' (One Digit), Lit '': '', Group ''name'' (Many AnyChar),
      Lit '' ('', Group ''stack'' (Many Digit), Lit '' in chips)'', Eol]"

definition hero_re :: regex where
  "hero_re = seqs
     [Bol, Lit ''Dealt to '', Group ''hero_name'' (Many AnyChar), Lit '' ['',
      Group ''2'' (Seq (One AnyChar) (One AnyChar)), Lit '' '',
      Group ''3'' (Seq (One AnyChar) (One AnyChar)), Lit '']'', Eol]"

definition pot_re :: regex where
  "pot_re = seqs
     [Bol, Lit ''Total pot '', Group ''1'' (Many Digit), Lit '' '', Many AnyChar,
      Lit ''| Rake '', Group ''2'' (Many Digit), Eol]"

definition winner_re :: regex where
  "winner_re = seqs
     [Bol, Lit ''Seat '', Group ''1'' (One Digit), Lit '': '', Group ''2'' (Many AnyChar),
      Lit '' collected ('', Group ''3'' (Many Digit), Lit '')'', Eol]"

definition showdown_re :: regex where
  "showdown_re = seqs
     [Bol, Lit ''Seat '', Group ''1'' (One Digit), Lit '': '', Group ''2'' (Many AnyChar),
      Lit '' showed '', Many AnyChar, Lit '' and won'']"

definition board_re :: regex where
  "board_re = seqs
     [Lookbehind (OneOf ''[ ''), Group ''1'' (Seq (One AnyChar) (One AnyChar)),
      Lookahead (OneOf ''] '')]"

subsection \<open>The object under construction\<close>

text \<open>
  The attributes the methods of the source read and assign. \<open>splitted\<close> and
  \<open>sections\<close> are \<^verbatim>\<open>self._splitted\<close> and \<^verbatim>\<open>self._sections\<close>, computed by the base
  class before any method below runs: the lines of the hand and the indices of the
  empty ones. For an attribute of option type, \<open>None\<close> is Python's \<^verbatim>\<open>None\<close> or an
  attribute not assigned yet. The attributes that \<^verbatim>\<open>parse_header\<close> assigns and
  those of the streets are grouped in two records of their own, which keeps the
  record of the whole object small; all of them are attributes of the one object.
\<close>

record ('d, 'e, 't) Header =
  game_type :: "'e option"
  sb :: "'d option"
  bb :: "'d option"
  buyin :: "'d option"
  rake :: "'d option"
  date :: "'t option"
  game :: "'e option"
  limit :: "'e option"
  ident :: "string option"
  tournament_ident :: "string option"
  tournament_level :: "string option"
  currency :: "'e option"
  header_parsed :: bool

record ('d, 'c) Streets =
  flop :: "('d, 'c) Flop option"
  turn :: "'c option"
  river :: "'c option"
  turn_actions :: "string list option"
  river_actions :: "string list option"

record ('d, 'e, 't, 'c, 'k) HandHistory =
  splitted :: "string list"
  sections :: "nat list"
  header :: "('d, 'e, 't) Header"
  table_match :: "groups option"
  table_name :: "string option"
  max_players :: "nat option"
  players :: "'k Player list"
  button :: "'k Player option"
  hero :: "'k Player option"
  streets :: "('d, 'c) Streets"
  show_down :: bool
  total_pot :: "nat option"
  winners :: "string list"

subsection \<open>\<^verbatim>\<open>parse_header\<close>\<close>

definition parse_header ::
  "('d, 'e, 't, 'c, 'k) lib \<Rightarrow> ('d, 'e, 't, 'c, 'k) HandHistory
     \<Rightarrow> error + ('d, 'e, 't, 'c, 'k) HandHistory" where
  "parse_header env st =
     (case getitem (splitted st) 0 of Inl e \<Rightarrow> Inl e | Inr header_line \<Rightarrow>
     (case re_match header_re header_line of None \<Rightarrow> Inl AttributeError | Some m \<Rightarrow>
     (case GameType env (match_group m ''game_type'') of Inl e \<Rightarrow> Inl e | Inr v_game_type \<Rightarrow>
     (case Decimal env (match_group m ''sb'') of Inl e \<Rightarrow> Inl e | Inr v_sb \<Rightarrow>
     (case Decimal env (match_group m ''bb'') of Inl e \<Rightarrow> Inl e | Inr v_bb \<Rightarrow>
     (case Decimal env (match_group m ''buyin'') of Inl e \<Rightarrow> Inl e | Inr v_buyin \<Rightarrow>
     (case Decimal env (match_group m ''rake'') of Inl e \<Rightarrow> Inl e | Inr v_rake \<Rightarrow>
     (case parse_date_value env (match_group m ''date'') of Inl e \<Rightarrow> Inl e | Inr v_date \<Rightarrow>
     (case Game env (match_group m ''game'') of Inl e \<Rightarrow> Inl e | Inr v_game \<Rightarrow>
     (case Limit env (match_group m ''limit'') of Inl e \<Rightarrow> Inl e | Inr v_limit \<Rightarrow>
     (case Currency env (match_group m ''currency'') of Inl e \<Rightarrow> Inl e | Inr v_currency \<Rightarrow>
      Inr (st\<lparr>header := (header st)\<lparr>
              game_type := Some v_game_type,
              sb := Some v_sb,
              bb := Some v_bb,
              buyin := Some v_buyin,
              rake := Some v_rake,
              date := Some v_date,
              game := Some v_game,
              limit := Some v_limit,
              ident := Some (match_group m ''ident''),
              tournament_ident := Some (match_group m ''tournament_ident''),
              tournament_level := Some (match_group m ''tournament_level''),
              currency := Some v_currency,
              header_parsed := True\<rparr>\<rparr>))))))))))))"

subsection \<open>Table, seats, button and hero\<close>

definition parse_table ::
  "('d, 'e, 't, 'c, 'k) HandHistory \<Rightarrow> error + ('d, 'e, 't, 'c, 'k) HandHistory" where
  "parse_table st =
     (case getitem (splitted st) 1 of Inl e \<Rightarrow> Inl e | Inr line \<Rightarrow>
     (case re_match table_re line of None \<Rightarrow> Inl AttributeError | Some m \<Rightarrow>
     (case py_int (match_group m ''2'') of Inl e \<Rightarrow> Inl e | Inr n \<Rightarrow>
      Inr (st\<lparr>table_match := Some m, table_name := Some (match_group m ''1''),
              max_players := Some n\<rparr>))))"

text \<open>
  Modelled from the spec: \<^verbatim>\<open>_init_seats\<close> of the missing base class, which builds
  "a fixed-size player array sized to max-seat-count" of "unfilled placeholders".
  What a placeholder holds is the parameter \<open>empty_seat\<close>.
\<close>

definition init_seats :: "('d, 'e, 't, 'c, 'k) lib \<Rightarrow> nat \<Rightarrow> 'k Player list" where
  "init_seats env n = map (empty_seat env) [0..<n]"

text \<open>The loop of \<^verbatim>\<open>_parse_players\<close> over \<^verbatim>\<open>self._splitted[2:]\<close>.\<close>

fun parse_players_loop :: "'k Player list \<Rightarrow> string list \<Rightarrow> error + 'k Player list" where
  "parse_players_loop ps [] = Inr ps"
| "parse_players_loop ps (line # rest) =
     (case re_match seat_re line of
        None \<Rightarrow> Inr ps
      | Some m \<Rightarrow>
          (case py_int (match_group m ''seat'') of Inl e \<Rightarrow> Inl e | Inr n \<Rightarrow>
          (case py_int (match_group m ''stack'') of Inl e \<Rightarrow> Inl e | Inr chips \<Rightarrow>
          (case setitem ps (int n - 1)
                  \<lparr>name = match_group m ''name'', stack = chips, seat = n, combo = None\<rparr> of
             Inl e \<Rightarrow> Inl e
           | Inr ps' \<Rightarrow> parse_players_loop ps' rest))))"

definition parse_players ::
  "('d, 'e, 't, 'c, 'k) lib \<Rightarrow> ('d, 'e, 't, 'c, 'k) HandHistory
     \<Rightarrow> error + ('d, 'e, 't, 'c, 'k) HandHistory" where
  "parse_players env st =
     (case max_players st of None \<Rightarrow> Inl AttributeError | Some n \<Rightarrow>
     (case parse_players_loop (init_seats env n) (slice (splitted st) (Some 2) None) of
        Inl e \<Rightarrow> Inl e
      | Inr ps \<Rightarrow> Inr (st\<lparr>players := ps\<rparr>)))"

definition parse_button ::
  "('d, 'e, 't, 'c, 'k) HandHistory \<Rightarrow> error + ('d, 'e, 't, 'c, 'k) HandHistory" where
  "parse_button st =
     (case table_match st of None \<Rightarrow> Inl AttributeError | Some m \<Rightarrow>
     (case py_int (match_group m ''button'') of Inl e \<Rightarrow> Inl e | Inr button_seat \<Rightarrow>
     (case getitem (players st) (int button_seat - 1) of Inl e \<Rightarrow> Inl e | Inr p \<Rightarrow>
      Inr (st\<lparr>button := Some p\<rparr>))))"

text \<open>
  Modelled from the spec: \<^verbatim>\<open>_get_hero_from_players\<close> of the missing base class, which
  "locates the existing Player entry by name equality" and returns it with its
  index. The first entry with the name is taken; none is an error.
\<close>

definition get_hero_from_players :: "'k Player list \<Rightarrow> string \<Rightarrow> error + 'k Player \<times> nat" where
  "get_hero_from_players ps hero_name =
     (case index (map name ps) hero_name 0 of
        Inl e \<Rightarrow> Inl e
      | Inr hero_index \<Rightarrow> Inr (ps ! hero_index, hero_index))"

definition parse_hero ::
  "('d, 'e, 't, 'c, 'k) lib \<Rightarrow> ('d, 'e, 't, 'c, 'k) HandHistory
     \<Rightarrow> error + ('d, 'e, 't, 'c, 'k) HandHistory" where
  "parse_hero env st =
     (case getitem (sections st) 0 of Inl e \<Rightarrow> Inl e | Inr s0 \<Rightarrow>
     (case getitem (splitted st) (int s0 + 2) of Inl e \<Rightarrow> Inl e | Inr hole_cards_line \<Rightarrow>
     (case re_match hero_re hole_cards_line of None \<Rightarrow> Inl AttributeError | Some m \<Rightarrow>
     (case get_hero_from_players (players st) (match_group m ''hero_name'') of
        Inl e \<Rightarrow> Inl e
      | Inr (h, hero_index) \<Rightarrow>
     (case Combo env (match_group m ''2'' @ match_group m ''3'') of Inl e \<Rightarrow> Inl e | Inr c \<Rightarrow>
     (case setitem (players st) (int hero_index) (h\<lparr>combo := Some c\<rparr>) of
        Inl e \<Rightarrow> Inl e
      | Inr ps \<Rightarrow>
     (case button st of None \<Rightarrow> Inl AttributeError | Some b \<Rightarrow>
      Inr (st\<lparr>hero := Some (h\<lparr>combo := Some c\<rparr>), players := ps,
              button := (if name b = name (h\<lparr>combo := Some c\<rparr>)
                         then Some (h\<lparr>combo := Some c\<rparr>) else Some b)\<rparr>))))))))"


subsection \<open>Streets\<close>

text \<open>
  \<^verbatim>\<open>_parse_flop\<close>: only the search for \<^verbatim>\<open>'FLOP'\<close> is inside the \<^verbatim>\<open>try\<close>; a
  ValueError of the search for the closing empty line is not caught.
\<close>

definition parse_flop ::
  "('d, 'e, 't, 'c, 'k) lib \<Rightarrow> ('d, 'e, 't, 'c, 'k) HandHistory \<Rightarrow> 'd
     \<Rightarrow> error + ('d, 'e, 't, 'c, 'k) HandHistory" where
  "parse_flop env st initial =
     (case index (splitted st) ''FLOP'' 0 of
        Inl e \<Rightarrow> Inr (st\<lparr>streets := (streets st)\<lparr>flop := None\<rparr>\<rparr>)
      | Inr i \<Rightarrow>
     (case index (splitted st) [] (i + 1) of Inl e \<Rightarrow> Inl e | Inr stop \<Rightarrow>
     (case Flop_init env (slice (splitted st) (Some (int (i + 1))) (Some (int stop))) initial of
        Inl e \<Rightarrow> Inl e
      | Inr fl \<Rightarrow> Inr (st\<lparr>streets := (streets st)\<lparr>flop := Some fl\<rparr>\<rparr>))))"

text \<open>
  \<^verbatim>\<open>_parse_street(street)\<close> is called for the turn and for the river. \<open>upper\<close> is
  \<^verbatim>\<open>street.upper()\<close>; \<open>set_street\<close> and \<open>set_street_actions\<close> are the two
  \<^verbatim>\<open>setattr\<close> calls.
\<close>

datatype Street = Turn | River

fun upper :: "Street \<Rightarrow> string" where
  "upper Turn = ''TURN''"
| "upper River = ''RIVER''"

fun set_street :: "Street \<Rightarrow> 'c option \<Rightarrow> ('d, 'c) Streets \<Rightarrow> ('d, 'c) Streets" where
  "set_street Turn v ss = ss\<lparr>turn := v\<rparr>"
| "set_street River v ss = ss\<lparr>river := v\<rparr>"

fun set_street_actions ::
  "Street \<Rightarrow> string list option \<Rightarrow> ('d, 'c) Streets \<Rightarrow> ('d, 'c) Streets" where
  "set_street_actions Turn v ss = ss\<lparr>turn_actions := v\<rparr>"
| "set_street_actions River v ss = ss\<lparr>river_actions := v\<rparr>"

fun get_street :: "Street \<Rightarrow> ('d, 'c) Streets \<Rightarrow> 'c option" where
  "get_street Turn ss = turn ss"
| "get_street River ss = river ss"

fun get_street_actions :: "Street \<Rightarrow> ('d, 'c) Streets \<Rightarrow> string list option" where
  "get_street_actions Turn ss = turn_actions ss"
| "get_street_actions River ss = river_actions ss"

definition parse_street ::
  "('d, 'e, 't, 'c, 'k) HandHistory \<Rightarrow> Street \<Rightarrow> ('d, 'e, 't, 'c, 'k) HandHistory" where
  "parse_street st street =
     (let absent = st\<lparr>streets := set_street_actions street None (set_street street None (streets st))\<rparr>
      in case index (splitted st) (upper street) 0 of
           Inl e \<Rightarrow> absent
         | Inr i \<Rightarrow>
             (case index (splitted st) [] (i + 2) of
                Inl e \<Rightarrow> absent
              | Inr stop \<Rightarrow>
                  (let street_actions = slice (splitted st) (Some (int (i + 2))) (Some (int stop))
                   in st\<lparr>streets := set_street_actions street
                          (if street_actions \<noteq> [] then Some street_actions else None)
                          (streets st)\<rparr>)))"

subsection \<open>Showdown, pot, board and winners\<close>

definition parse_showdown ::
  "('d, 'e, 't, 'c, 'k) HandHistory \<Rightarrow> ('d, 'e, 't, 'c, 'k) HandHistory" where
  "parse_showdown st = st\<lparr>show_down := (''SHOW DOWN'' \<in> set (splitted st))\<rparr>"

definition parse_pot ::
  "('d, 'e, 't, 'c, 'k) HandHistory \<Rightarrow> error + ('d, 'e, 't, 'c, 'k) HandHistory" where
  "parse_pot st =
     (case getitem (sections st) (- 1) of Inl e \<Rightarrow> Inl e | Inr s \<Rightarrow>
     (case getitem (splitted st) (int s + 2) of Inl e \<Rightarrow> Inl e | Inr potline \<Rightarrow>
     (case re_match pot_re potline of None \<Rightarrow> Inl AttributeError | Some m \<Rightarrow>
     (case py_int (match_group m ''1'') of Inl e \<Rightarrow> Inl e | Inr n \<Rightarrow>
      Inr (st\<lparr>total_pot := Some n\<rparr>)))))"

definition parse_board ::
  "('d, 'e, 't, 'c, 'k) lib \<Rightarrow> ('d, 'e, 't, 'c, 'k) HandHistory
     \<Rightarrow> error + ('d, 'e, 't, 'c, 'k) HandHistory" where
  "parse_board env st =
     (case getitem (sections st) (- 1) of Inl e \<Rightarrow> Inl e | Inr s \<Rightarrow>
     (case getitem (splitted st) (int s + 3) of Inl e \<Rightarrow> Inl e | Inr boardline \<Rightarrow>
      if \<not> startswith boardline ''Board'' then Inr st
      else
        (let cs = findall board_re boardline
         in case (if length cs > 3 then map_sum id Some (Card env (cs ! 3)) else Inr None) of
              Inl e \<Rightarrow> Inl e
            | Inr v_turn \<Rightarrow>
           (case (if length cs > 4 then map_sum id Some (Card env (cs ! 4)) else Inr None) of
              Inl e \<Rightarrow> Inl e
            | Inr v_river \<Rightarrow>
                Inr (st\<lparr>streets := (streets st)\<lparr>turn := v_turn, river := v_river\<rparr>\<rparr>)))))"

text \<open>
  \<^verbatim>\<open>_parse_winners\<close> collects the names in a Python \<^verbatim>\<open>set\<close> and stores
  \<^verbatim>\<open>tuple(winners)\<close>. The set is a list without repetition here (\<open>List.insert\<close> adds
  an element only when it is new); the order of a tuple built from a set is not
  determined by the source, and nothing below depends on it.
\<close>

fun parse_winners_loop :: "bool \<Rightarrow> string list \<Rightarrow> string list \<Rightarrow> error + string list" where
  "parse_winners_loop sd ws [] = Inr ws"
| "parse_winners_loop sd ws (line # rest) =
     (if \<not> sd \<and> contains line ''collected''
      then (case re_match winner_re line of
              None \<Rightarrow> Inl AttributeError
            | Some m \<Rightarrow> parse_winners_loop sd (List.insert (match_group m ''2'') ws) rest)
      else if sd \<and> contains line ''won''
      then (case re_match showdown_re line of
              None \<Rightarrow> Inl AttributeError
            | Some m \<Rightarrow> parse_winners_loop sd (List.insert (match_group m ''2'') ws) rest)
      else parse_winners_loop sd ws rest)"

definition parse_winners ::
  "('d, 'e, 't, 'c, 'k) HandHistory \<Rightarrow> error + ('d, 'e, 't, 'c, 'k) HandHistory" where
  "parse_winners st =
     (case getitem (sections st) (- 1) of Inl e \<Rightarrow> Inl e | Inr s \<Rightarrow>
     (case parse_winners_loop (show_down st) [] (slice (splitted st) (Some (int s + 4)) None) of
        Inl e \<Rightarrow> Inl e
      | Inr ws \<Rightarrow> Inr (st\<lparr>winners := ws\<rparr>)))"

section \<open>A sample instance of the collaborators\<close>

text \<open>
  The closed examples below run the parser with this instance. It covers a part of
  each collaborator that is beyond doubt: \<open>ex_Decimal\<close> reads an unsigned numeral with
  an optional fraction as the pair of its coefficient and exponent (\<open>(1000, -2)\<close> is
  \<^verbatim>\<open>10.00\<close>) and rejects every other text, as \<^verbatim>\<open>decimal.Decimal\<close> rejects the ones
  that occur in the examples; \<open>ex_Decimal_add\<close> is the exact sum, which is the sum of
  the library for numbers of at most 28 digits.
\<close>

definition digits_val :: "string \<Rightarrow> nat" where
  "digits_val s = foldl (\<lambda>acc c. 10 * acc + digit_val c) 0 s"

definition ex_Decimal :: "string \<Rightarrow> error + nat \<times> int" where
  "ex_Decimal s =
     (let ip = takeWhile is_digit s; r = dropWhile is_digit s
      in case r of
           [] \<Rightarrow> if ip = [] then Inl (LibraryError ''InvalidOperation'') else Inr (digits_val ip, 0)
         | c # fp \<Rightarrow>
             if c = CHR ''.'' \<and> list_all is_digit fp \<and> (ip \<noteq> [] \<or> fp \<noteq> [])
             then Inr (digits_val (ip @ fp), - int (length fp))
             else Inl (LibraryError ''InvalidOperation''))"

definition ex_Decimal_add :: "nat \<times> int \<Rightarrow> nat \<times> int \<Rightarrow> error + nat \<times> int" where
  "ex_Decimal_add x y =
     (case x of (c1, e1) \<Rightarrow> (case y of (c2, e2) \<Rightarrow>
        if e1 \<le> e2 then Inr (c1 + c2 * 10 ^ nat (e2 - e1), e1)
        else Inr (c1 * 10 ^ nat (e1 - e2) + c2, e2)))"

definition ex_lookup :: "(string \<times> 'a) list \<Rightarrow> string \<Rightarrow> error + 'a" where
  "ex_lookup table key =
     (case map_of table key of None \<Rightarrow> Inl (LibraryError ''ValueError'') | Some v \<Rightarrow> Inr v)"

definition ex_Card :: "string \<Rightarrow> error + string" where
  "ex_Card s =
     (if length s = 2 \<and> hd s \<in> set ''23456789TJQKA'' \<and> last s \<in> set ''cdhs'' then Inr s
      else Inl (LibraryError ''ValueError''))"

definition ex_Combo :: "string \<Rightarrow> error + string \<times> string" where
  "ex_Combo s =
     (case ex_Card (take 2 s) of Inl e \<Rightarrow> Inl e | Inr c1 \<Rightarrow>
     (case ex_Card (drop 2 s) of Inl e \<Rightarrow> Inl e | Inr c2 \<Rightarrow> Inr (c1, c2)))"

definition ex_env :: "(nat \<times> int, string, string, string, string \<times> string) lib" where
  "ex_env =
     \<lparr>Decimal = ex_Decimal,
      Decimal_add = ex_Decimal_add,
      Action = ex_lookup [(''bets'', BET), (''raises'', RAISE), (''calls'', CALL),
                          (''checks'', CHECK), (''folds'', FOLD)],
      Card = ex_Card,
      Combo = ex_Combo,
      GameType = ex_lookup [(''Tournament'', ''TOUR'')],
      Game = ex_lookup [(''Hold'' @ [CHR 0x27] @ ''em'', ''HOLDEM'')],
      Limit = ex_lookup [(''No Limit'', ''NL'')],
      Currency = ex_lookup [(''USD'', ''USD''), (''EUR'', ''EUR'')],
      parse_date_value = (\<lambda>s. if length s = 22 then Inr s else Inl (LibraryError ''ValueError'')),
      empty_seat = (\<lambda>i. \<lparr>name = ''Empty Seat'', stack = 0, seat = Suc i, combo = None\<rparr>)\<rparr>"


definition ex_header_line :: string where
  "ex_header_line =
     ''PokerStars Hand #105024000105: Tournament #797469411, $10.00+$1.00 USD Hold'' @ [CHR 0x27]
     @ ''em No Limit - Level I (10/20) - 2013/10/04 19:18:18 CET [2013/10/04 13:18:18 ET]''"

definition ex_hand :: "(nat \<times> int, string, string, string, string \<times> string) HandHistory" where
  "ex_hand =
     \<lparr>splitted =
        [ex_header_line,
         ''Table '' @ [CHR 0x27] @ ''797469411 15'' @ [CHR 0x27] @ '' 9-max Seat #1 is the button'',
         ''Seat 1: flettl2 (1500 in chips)'',
         ''Seat 3: W2lkm2n (3000 in chips)'',
         ''Seat 4: pmmr (1500 in chips)'',
         ''W2lkm2n: posts small blind 10'',
         ''pmmr: posts big blind 20'',
         [],
         ''HOLE CARDS'',
         ''Dealt to W2lkm2n [Ac Jh]'',
         ''W2lkm2n: raises 40 to 60'',
         ''pmmr: folds'',
         ''Uncalled bet (40) returned to W2lkm2n'',
         ''W2lkm2n collected 40 from pot'',
         [],
         ''SUMMARY'',
         ''Total pot 40 | Rake 0'',
         ''Seat 1: flettl2 (button) folded before Flop (didn'' @ [CHR 0x27] @ ''t bet)'',
         ''Seat 3: W2lkm2n (small blind) collected (40)'',
         ''Seat 4: pmmr (big blind) folded before Flop''],
      sections = [7, 14],
      header = \<lparr>game_type = None, sb = None, bb = None, buyin = None, rake = None, date = None,
                 game = None, limit = None, ident = None, tournament_ident = None,
                 tournament_level = None, currency = None, header_parsed = False\<rparr>,
      table_match = None, table_name = None, max_players = None, players = [],
      button = None, hero = None,
      streets = \<lparr>flop = None, turn = None, river = None, turn_actions = None,
                  river_actions = None\<rparr>,
      show_down = False, total_pot = None, winners = []\<rparr>"

section \<open>Facts about the string operations\<close>

lemma startswith_iff: "startswith s p \<longleftrightarrow> (\<exists>t. s = p @ t)"
  by (induction s p rule: startswith.induct) auto


lemma index_at_notin: "x \<notin> set ys \<Longrightarrow> index_at ys x i = Inl ValueError"
  by (induction ys arbitrary: i) auto

lemma index_notin: "x \<notin> set xs \<Longrightarrow> index xs x start = Inl ValueError"
  unfolding index_def by (rule index_at_notin) (auto dest: in_set_dropD)

text \<open>
  Claim C6. When the line sequence holds no line \<^verbatim>\<open>FLOP\<close>, \<^verbatim>\<open>_parse_flop\<close> returns
  without error and leaves the flop, which carries the flop's actions, unset. When it
  holds no line \<^verbatim>\<open>TURN\<close> (or \<^verbatim>\<open>RIVER\<close>), \<^verbatim>\<open>_parse_street\<close>, which cannot fail,
  sets both the street and its action sequence to \<open>None\<close> and changes nothing else.
\<close>

theorem C6_absent_street:
  "(''FLOP'' \<notin> set (splitted st) \<longrightarrow>
      parse_flop env st initial = Inr (st\<lparr>streets := (streets st)\<lparr>flop := None\<rparr>\<rparr>))
   \<and> (upper street \<notin> set (splitted st) \<longrightarrow>
      parse_street st street =
        st\<lparr>streets := set_street_actions street None (set_street street None (streets st))\<rparr>
      \<and> get_street street (streets (parse_street st street)) = None
      \<and> get_street_actions street (streets (parse_street st street)) = None)"
  by (cases street) (simp_all add: parse_flop_def parse_street_def index_notin)

theorem C6_absent_street_witness:
  "''FLOP'' \<notin> set (splitted ex_hand)
   \<and> parse_flop ex_env ex_hand (0, 0) = Inr (ex_hand\<lparr>streets := (streets ex_hand)\<lparr>flop := None\<rparr>\<rparr>)
   \<and> ''TURN'' \<notin> set (splitted ex_hand)
   \<and> turn (streets (parse_street ex_hand Turn)) = None
   \<and> turn_actions (streets (parse_street ex_hand Turn)) = None
   \<and> ''RIVER'' \<notin> set (splitted ex_hand)
   \<and> river (streets (parse_street ex_hand River)) = None
   \<and> river_actions (streets (parse_street ex_hand River)) = None"
proof -
  have 1: "''FLOP'' \<notin> set (splitted ex_hand)" "''TURN'' \<notin> set (splitted ex_hand)"
    "''RIVER'' \<notin> set (splitted ex_hand)"
    by (simp_all add: ex_hand_def ex_header_line_def)
  show ?thesis
    using 1 C6_absent_street [of ex_hand ex_env "(0, 0)" Turn]
      C6_absent_street [of ex_hand ex_env "(0, 0)" River]
    by simp
qed

section \<open>Header and pot\<close>

lemma parse_header_Inr:
  assumes "parse_header env st = Inr st'"
  shows "\<exists>line m v1 v2 v3 v4 v5 v6 v7 v8 v9.
      getitem (splitted st) 0 = Inr line \<and> re_match header_re line = Some m
    \<and> GameType env (match_group m ''game_type'') = Inr v1
    \<and> Decimal env (match_group m ''sb'') = Inr v2
    \<and> Decimal env (match_group m ''bb'') = Inr v3
    \<and> Decimal env (match_group m ''buyin'') = Inr v4
    \<and> Decimal env (match_group m ''rake'') = Inr v5
    \<and> parse_date_value env (match_group m ''date'') = Inr v6
    \<and> Game env (match_group m ''game'') = Inr v7
    \<and> Limit env (match_group m ''limit'') = Inr v8
    \<and> Currency env (match_group m ''currency'') = Inr v9
    \<and> st' = st\<lparr>header := (header st)\<lparr>
              game_type := Some v1, sb := Some v2, bb := Some v3, buyin := Some v4,
              rake := Some v5, date := Some v6, game := Some v7, limit := Some v8,
              ident := Some (match_group m ''ident''),
              tournament_ident := Some (match_group m ''tournament_ident''),
              tournament_level := Some (match_group m ''tournament_level''),
              currency := Some v9, header_parsed := True\<rparr>\<rparr>"
  using assms unfolding parse_header_def
  by (simp split: sum.splits option.splits)

lemma parse_pot_Inr:
  assumes "parse_pot st = Inr st'"
  shows "\<exists>s potline m n.
      getitem (sections st) (- 1) = Inr s \<and> getitem (splitted st) (int s + 2) = Inr potline
    \<and> re_match pot_re potline = Some m \<and> py_int (match_group m ''1'') = Inr n
    \<and> st' = st\<lparr>total_pot := Some n\<rparr>"
  using assms unfolding parse_pot_def
  by (simp split: sum.splits option.splits)

text \<open>
  Claim C10. When \<^verbatim>\<open>_parse_pot\<close> returns, the only attribute it has assigned is
  \<^verbatim>\<open>total_pot\<close>, the number read from the first group of the pot line; the second
  group, the rake of the summary, is not used. Every other attribute is as before,
  so the rake is still the one \<^verbatim>\<open>parse_header\<close> decoded from the buy-in of the
  first line.
\<close>

theorem C10_pot_frame:
  assumes "parse_pot st = Inr st'"
  shows "(\<exists>s potline m n.
            getitem (sections st) (- 1) = Inr s \<and> getitem (splitted st) (int s + 2) = Inr potline
          \<and> re_match pot_re potline = Some m \<and> py_int (match_group m ''1'') = Inr n
          \<and> st' = st\<lparr>total_pot := Some n\<rparr>)
       \<and> rake (header st') = rake (header st)
       \<and> (\<forall>env st0. parse_header env st0 = Inr st \<longrightarrow>
            (\<exists>line m v. getitem (splitted st0) 0 = Inr line \<and> re_match header_re line = Some m
               \<and> Decimal env (match_group m ''rake'') = Inr v \<and> rake (header st') = Some v))"
proof -
  from parse_pot_Inr[OF assms] obtain n where st': "st' = st\<lparr>total_pot := Some n\<rparr>"
    by blast
  have 2: "rake (header st') = rake (header st)"
    by (simp add: st')
  have 3: "\<exists>line m v. getitem (splitted st0) 0 = Inr line \<and> re_match header_re line = Some m
               \<and> Decimal env (match_group m ''rake'') = Inr v \<and> rake (header st') = Some v"
    if "parse_header env st0 = Inr st" for env :: "('a, 'b, 'c, 'd, 'e) lib" and st0
  proof -
    from parse_header_Inr[OF that] obtain line m v5 where
      "getitem (splitted st0) 0 = Inr line" "re_match header_re line = Some m"
      "Decimal env (match_group m ''rake'') = Inr v5" "rake (header st) = Some v5"
      by auto
    then show ?thesis using 2 by auto
  qed
  from parse_pot_Inr[OF assms] 2 3 show ?thesis by blast
qed

definition ex_hand_hdr :: "(nat \<times> int, string, string, string, string \<times> string) HandHistory" where
  "ex_hand_hdr = ex_hand\<lparr>header :=
     \<lparr>game_type = Some ''TOUR'', sb = Some (10, 0), bb = Some (20, 0),
      buyin = Some (1000, - 2), rake = Some (100, - 2),
      date = Some ''2013/10/04 13:18:18 ET'', game = Some ''HOLDEM'',
      limit = Some ''NL'', ident = Some ''105024000105'',
      tournament_ident = Some ''797469411'',
      tournament_level = Some ''I'', currency = Some ''USD'',
      header_parsed = True\<rparr>\<rparr>"

lemma ex_parse_header: "parse_header ex_env ex_hand = Inr ex_hand_hdr"
  by code_simp

lemma ex_parse_pot: "parse_pot ex_hand_hdr = Inr (ex_hand_hdr\<lparr>total_pot := Some 40\<rparr>)"
  by code_simp

theorem C10_pot_frame_witness:
  "parse_header ex_env ex_hand = Inr ex_hand_hdr
   \<and> parse_pot ex_hand_hdr = Inr (ex_hand_hdr\<lparr>total_pot := Some 40\<rparr>)
   \<and> rake (header (ex_hand_hdr\<lparr>total_pot := Some 40\<rparr>)) = Some (100, - 2)"
proof -
  have "rake (header (ex_hand_hdr\<lparr>total_pot := Some 40\<rparr>)) = rake (header ex_hand_hdr)"
    using C10_pot_frame [OF ex_parse_pot] by blast
  moreover have "rake (header ex_hand_hdr) = Some (100, - 2)"
    by (simp add: ex_hand_hdr_def)
  ultimately show ?thesis
    using ex_parse_header ex_parse_pot by simp
qed

section \<open>The hero\<close>

lemma index_at_Inr:
  "index_at ys x k = Inr j \<Longrightarrow>
     k \<le> j \<and> j - k < length ys \<and> ys ! (j - k) = x \<and> (\<forall>l < j - k. ys ! l \<noteq> x)"
proof (induction ys arbitrary: k)
  case Nil
  then show ?case by simp
next
  case (Cons y ys)
  show ?case
  proof (cases "y = x")
    case True
    with Cons.prems show ?thesis by simp
  next
    case False
    with Cons.prems have "index_at ys x (Suc k) = Inr j" by simp
    from Cons.IH[OF this] have ih: "Suc k \<le> j" "j - Suc k < length ys" "ys ! (j - Suc k) = x"
      "\<forall>l < j - Suc k. ys ! l \<noteq> x" by auto
    then have eq: "j - k = Suc (j - Suc k)" by arith
    show ?thesis
      using ih False unfolding eq
      by (auto simp: nth_Cons split: nat.splits)
  qed
qed

lemma get_hero_from_players_Inr:
  assumes "get_hero_from_players ps hero_name = Inr (h, i)"
  shows "i < length ps \<and> h = ps ! i \<and> name (ps ! i) = hero_name
         \<and> (\<forall>j < i. name (ps ! j) \<noteq> hero_name)"
proof -
  from assms have ix: "index_at (map name ps) hero_name 0 = Inr i" and h: "h = ps ! i"
    by (auto simp: get_hero_from_players_def index_def split: sum.splits)
  from index_at_Inr[OF ix] have "i < length ps" "map name ps ! i = hero_name"
    "\<forall>l < i. map name ps ! l \<noteq> hero_name" by auto
  then show ?thesis using h by auto
qed

text \<open>
  Claim C4. When \<^verbatim>\<open>_parse_hero\<close> returns, the player at the first index \<open>i\<close> whose
  name is the hero name of the reveal line has been replaced, at that index, by the
  same record with its combo set to the combo of the two card texts; the hero is
  that new record; and the button, when its name is the hero's name, is that new
  record too (with the combo, so it differs from the record it replaces), and is
  untouched otherwise. No other attribute changes.
\<close>

theorem C4_hero:
  assumes "parse_hero env st = Inr st'"
  shows "\<exists>s0 line m i c b.
      getitem (sections st) 0 = Inr s0 \<and> getitem (splitted st) (int s0 + 2) = Inr line
    \<and> re_match hero_re line = Some m
    \<and> i < length (players st) \<and> name (players st ! i) = match_group m ''hero_name''
    \<and> (\<forall>j < i. name (players st ! j) \<noteq> match_group m ''hero_name'')
    \<and> Combo env (match_group m ''2'' @ match_group m ''3'') = Inr c
    \<and> players st' = (players st)[i := (players st ! i)\<lparr>combo := Some c\<rparr>]
    \<and> players st' ! i = (players st ! i)\<lparr>combo := Some c\<rparr>
    \<and> hero st' = Some (players st' ! i)
    \<and> button st = Some b
    \<and> (name b = match_group m ''hero_name'' \<longrightarrow> button st' = Some (players st' ! i))
    \<and> (name b \<noteq> match_group m ''hero_name'' \<longrightarrow> button st' = Some b)
    \<and> st' = st\<lparr>hero := hero st', players := players st', button := button st'\<rparr>"
proof -
  from assms obtain s0 line m h i c ps b where
    1: "getitem (sections st) 0 = Inr s0" "getitem (splitted st) (int s0 + 2) = Inr line"
       "re_match hero_re line = Some m"
    and g: "get_hero_from_players (players st) (match_group m ''hero_name'') = Inr (h, i)"
    and c: "Combo env (match_group m ''2'' @ match_group m ''3'') = Inr c"
    and ps: "setitem (players st) (int i) (h\<lparr>combo := Some c\<rparr>) = Inr ps"
    and b: "button st = Some b"
    and st': "st' = st\<lparr>hero := Some (h\<lparr>combo := Some c\<rparr>), players := ps,
              button := (if name b = name (h\<lparr>combo := Some c\<rparr>)
                         then Some (h\<lparr>combo := Some c\<rparr>) else Some b)\<rparr>"
    unfolding parse_hero_def
    by (auto split: sum.splits option.splits prod.splits)
  from get_hero_from_players_Inr[OF g] have i: "i < length (players st)"
    and h: "h = players st ! i" and nm: "name (players st ! i) = match_group m ''hero_name''"
    and first: "\<forall>j < i. name (players st ! j) \<noteq> match_group m ''hero_name''" by auto
  from ps i have ps': "ps = (players st)[i := h\<lparr>combo := Some c\<rparr>]"
    by (auto simp: setitem_def Let_def split: if_splits)
  have psi: "ps ! i = h\<lparr>combo := Some c\<rparr>" using ps' i by simp
  show ?thesis
    apply (rule exI[of _ s0], rule exI[of _ line], rule exI[of _ m], rule exI[of _ i],
        rule exI[of _ c], rule exI[of _ b])
    using 1 i nm first c b psi ps' h
    by (simp add: st')
qed

definition ex_seated :: "(nat \<times> int, string, string, string, string \<times> string) HandHistory" where
  "ex_seated = ex_hand
     \<lparr>players := [\<lparr>name = ''flettl2'', stack = 1500, seat = 1, combo = None\<rparr>,
                  \<lparr>name = ''W2lkm2n'', stack = 3000, seat = 2, combo = None\<rparr>],
      button := Some \<lparr>name = ''W2lkm2n'', stack = 3000, seat = 2, combo = None\<rparr>\<rparr>"

definition ex_heroed :: "(nat \<times> int, string, string, string, string \<times> string) HandHistory" where
  "ex_heroed = ex_seated
     \<lparr>hero := Some \<lparr>name = ''W2lkm2n'', stack = 3000, seat = 2, combo = Some (''Ac'', ''Jh'')\<rparr>,
      players := [\<lparr>name = ''flettl2'', stack = 1500, seat = 1, combo = None\<rparr>,
                  \<lparr>name = ''W2lkm2n'', stack = 3000, seat = 2, combo = Some (''Ac'', ''Jh'')\<rparr>],
      button := Some \<lparr>name = ''W2lkm2n'', stack = 3000, seat = 2, combo = Some (''Ac'', ''Jh'')\<rparr>\<rparr>"

lemma ex_parse_hero: "parse_hero ex_env ex_seated = Inr ex_heroed"
  by code_simp

theorem C4_hero_witness:
  "parse_hero ex_env ex_seated = Inr ex_heroed
   \<and> button ex_heroed = hero ex_heroed
   \<and> button ex_heroed \<noteq> button ex_seated
   \<and> (\<exists>i c. players ex_heroed = (players ex_seated)[i := (players ex_seated ! i)\<lparr>combo := Some c\<rparr>])"
proof -
  from C4_hero [OF ex_parse_hero]
  have "\<exists>i c. players ex_heroed = (players ex_seated)[i := (players ex_seated ! i)\<lparr>combo := Some c\<rparr>]"
    by blast
  moreover have "button ex_heroed = hero ex_heroed" "button ex_heroed \<noteq> button ex_seated"
    by (simp_all add: ex_heroed_def ex_seated_def)
  ultimately show ?thesis
    using ex_parse_hero by simp
qed

section \<open>Action lines\<close>





















section \<open>Winners\<close>

text \<open>
  The summary lines that \<^verbatim>\<open>_parse_winners\<close> reads a name from, and the grammar it
  uses, for a hand with (\<open>sd\<close>) or without showdown.
\<close>

definition winner_line :: "bool \<Rightarrow> string \<Rightarrow> bool" where
  "winner_line sd line = (if sd then contains line ''won'' else contains line ''collected'')"

definition winner_grammar :: "bool \<Rightarrow> regex" where
  "winner_grammar sd = (if sd then showdown_re else winner_re)"

lemma parse_winners_loop_step:
  "parse_winners_loop sd ws (line # rest) =
     (if winner_line sd line
      then (case re_match (winner_grammar sd) line of
              None \<Rightarrow> Inl AttributeError
            | Some m \<Rightarrow> parse_winners_loop sd (List.insert (match_group m ''2'') ws) rest)
      else parse_winners_loop sd ws rest)"
  by (cases sd) (auto simp: winner_line_def winner_grammar_def split: option.splits)

lemma parse_winners_loop_Inr:
  "parse_winners_loop sd ws lines = Inr ws' \<Longrightarrow>
     set ws' = set ws \<union> {match_group m ''2'' |line m. line \<in> set lines \<and> winner_line sd line
                              \<and> re_match (winner_grammar sd) line = Some m}
     \<and> (distinct ws \<longrightarrow> distinct ws')"
proof (induction lines arbitrary: ws)
  case Nil
  then show ?case by simp
next
  case (Cons line rest)
  show ?case
  proof (cases "winner_line sd line")
    case False
    with Cons.prems have "parse_winners_loop sd ws rest = Inr ws'"
      by (simp add: parse_winners_loop_step del: parse_winners_loop.simps)
    from Cons.IH[OF this] False show ?thesis by auto
  next
    case True
    with Cons.prems obtain m where m: "re_match (winner_grammar sd) line = Some m"
      and r: "parse_winners_loop sd (List.insert (match_group m ''2'') ws) rest = Inr ws'"
      by (auto simp: parse_winners_loop_step simp del: parse_winners_loop.simps split: option.splits)
    from Cons.IH[OF r] True m show ?thesis by auto
  qed
qed

lemma parse_winners_loop_succeeds:
  "(\<exists>ws'. parse_winners_loop sd ws lines = Inr ws') \<longleftrightarrow>
     (\<forall>line \<in> set lines. winner_line sd line \<longrightarrow> re_match (winner_grammar sd) line \<noteq> None)"
proof (induction lines arbitrary: ws)
  case Nil
  then show ?case by simp
next
  case (Cons line rest)
  show ?case
    unfolding parse_winners_loop_step using Cons.IH
    by (auto split: option.splits)
qed

text \<open>
  What the two methods compute. \<^verbatim>\<open>_parse_showdown\<close> sets the flag exactly when some
  line is \<^verbatim>\<open>SHOW DOWN\<close>. \<^verbatim>\<open>_parse_winners\<close> reads the lines from the fourth after
  the last section boundary on (\<^verbatim>\<open>self._sections[-1] + 4\<close>), whatever the line before
  them is. When it returns, the winners are, without repetition, exactly the texts of
  group 2 of the seat-summary grammar on those lines that contain \<^verbatim>\<open>collected\<close> if
  the flag is false, and of the showdown-summary grammar on those that contain
  \<^verbatim>\<open>won\<close> if it is true; nothing but the winners changes. It returns exactly when
  the section boundary exists and each of those lines matches its grammar.
\<close>

lemma parse_winners_scanned:
  "show_down (parse_showdown st) = (''SHOW DOWN'' \<in> set (splitted st))
   \<and> (parse_winners (parse_showdown st) = Inr st' \<longrightarrow>
        (\<exists>s. getitem (sections st) (- 1) = Inr s
          \<and> st' = (parse_showdown st)\<lparr>winners := winners st'\<rparr>
          \<and> distinct (winners st')
          \<and> (''SHOW DOWN'' \<notin> set (splitted st) \<longrightarrow>
               set (winners st') =
                 {match_group m ''2'' |line m. line \<in> set (slice (splitted st) (Some (int s + 4)) None)
                    \<and> contains line ''collected'' \<and> re_match winner_re line = Some m})
          \<and> (''SHOW DOWN'' \<in> set (splitted st) \<longrightarrow>
               set (winners st') =
                 {match_group m ''2'' |line m. line \<in> set (slice (splitted st) (Some (int s + 4)) None)
                    \<and> contains line ''won'' \<and> re_match showdown_re line = Some m})))
   \<and> ((\<exists>st'. parse_winners (parse_showdown st) = Inr st') \<longleftrightarrow>
        (\<exists>s. getitem (sections st) (- 1) = Inr s
          \<and> (\<forall>line \<in> set (slice (splitted st) (Some (int s + 4)) None).
                if ''SHOW DOWN'' \<in> set (splitted st)
                then contains line ''won'' \<longrightarrow> re_match showdown_re line \<noteq> None
                else contains line ''collected'' \<longrightarrow> re_match winner_re line \<noteq> None)))"
proof (intro conjI impI)
  show "show_down (parse_showdown st) = (''SHOW DOWN'' \<in> set (splitted st))"
    by (simp add: parse_showdown_def)
next
  assume a: "parse_winners (parse_showdown st) = Inr st'"
  let ?sd = "''SHOW DOWN'' \<in> set (splitted st)"
  from a obtain s ws where s: "getitem (sections st) (- 1) = Inr s"
    and l: "parse_winners_loop ?sd [] (slice (splitted st) (Some (int s + 4)) None) = Inr ws"
    and st': "st' = (parse_showdown st)\<lparr>winners := ws\<rparr>"
    by (auto simp: parse_winners_def parse_showdown_def split: sum.splits)
  from parse_winners_loop_Inr[OF l] have
    d: "distinct ws" and
    e: "set ws = {match_group m ''2'' |line m. line \<in> set (slice (splitted st) (Some (int s + 4)) None)
          \<and> winner_line ?sd line \<and> re_match (winner_grammar ?sd) line = Some m}"
    by auto
  show "\<exists>s. getitem (sections st) (- 1) = Inr s
          \<and> st' = (parse_showdown st)\<lparr>winners := winners st'\<rparr>
          \<and> distinct (winners st')
          \<and> (''SHOW DOWN'' \<notin> set (splitted st) \<longrightarrow>
               set (winners st') =
                 {match_group m ''2'' |line m. line \<in> set (slice (splitted st) (Some (int s + 4)) None)
                    \<and> contains line ''collected'' \<and> re_match winner_re line = Some m})
          \<and> (''SHOW DOWN'' \<in> set (splitted st) \<longrightarrow>
               set (winners st') =
                 {match_group m ''2'' |line m. line \<in> set (slice (splitted st) (Some (int s + 4)) None)
                    \<and> contains line ''won'' \<and> re_match showdown_re line = Some m})"
    apply (rule exI[of _ s])
    using s d e by (simp add: st' winner_line_def winner_grammar_def)
next
  let ?sd = "''SHOW DOWN'' \<in> set (splitted st)"
  have "(\<exists>st'. parse_winners (parse_showdown st) = Inr st') \<longleftrightarrow>
        (\<exists>s. getitem (sections st) (- 1) = Inr s
           \<and> (\<exists>ws. parse_winners_loop ?sd [] (slice (splitted st) (Some (int s + 4)) None) = Inr ws))"
    by (auto simp: parse_winners_def parse_showdown_def split: sum.splits)
  also have "\<dots> \<longleftrightarrow> (\<exists>s. getitem (sections st) (- 1) = Inr s
          \<and> (\<forall>line \<in> set (slice (splitted st) (Some (int s + 4)) None).
                if ''SHOW DOWN'' \<in> set (splitted st)
                then contains line ''won'' \<longrightarrow> re_match showdown_re line \<noteq> None
                else contains line ''collected'' \<longrightarrow> re_match winner_re line \<noteq> None))"
    unfolding parse_winners_loop_succeeds
    by (simp add: winner_line_def winner_grammar_def)
  finally show "(\<exists>st'. parse_winners (parse_showdown st) = Inr st') \<longleftrightarrow>
        (\<exists>s. getitem (sections st) (- 1) = Inr s
          \<and> (\<forall>line \<in> set (slice (splitted st) (Some (int s + 4)) None).
                if ''SHOW DOWN'' \<in> set (splitted st)
                then contains line ''won'' \<longrightarrow> re_match showdown_re line \<noteq> None
                else contains line ''collected'' \<longrightarrow> re_match winner_re line \<noteq> None))" .
qed

definition ex_showdown_hand ::
  "(nat \<times> int, string, string, string, string \<times> string) HandHistory" where
  "ex_showdown_hand = ex_hand
     \<lparr>splitted :=
        [''SHOW DOWN'', [], ''SUMMARY'', ''Total pot 80 | Rake 0'', ''Board [2s 3d 4c 5h 6s]'',
         ''Seat 1: ann showed [Ah Kd] and won (40) with a pair of Aces'',
         ''Seat 2: bob showed [As Kc] and won (40) with a pair of Aces'',
         ''Seat 3: cat mucked'',
         ''Seat 1: ann showed [Ah Kd] and won (40)''],
      sections := [1]\<rparr>"

lemma ex_parse_winners:
  "parse_winners (parse_showdown ex_hand)
     = Inr ((parse_showdown ex_hand)\<lparr>winners := [''W2lkm2n (small blind)'']\<rparr>)"
  "parse_winners (parse_showdown ex_showdown_hand)
     = Inr ((parse_showdown ex_showdown_hand)\<lparr>winners := [''bob'', ''ann'']\<rparr>)"
  by code_simp+

lemma parse_winners_scanned_example:
  "''SHOW DOWN'' \<notin> set (splitted ex_hand)
   \<and> \<not> show_down (parse_showdown ex_hand)
   \<and> parse_winners (parse_showdown ex_hand)
       = Inr ((parse_showdown ex_hand)\<lparr>winners := [''W2lkm2n (small blind)'']\<rparr>)
   \<and> ''SHOW DOWN'' \<in> set (splitted ex_showdown_hand)
   \<and> show_down (parse_showdown ex_showdown_hand)
   \<and> parse_winners (parse_showdown ex_showdown_hand)
       = Inr ((parse_showdown ex_showdown_hand)\<lparr>winners := [''bob'', ''ann'']\<rparr>)
   \<and> distinct (winners ((parse_showdown ex_showdown_hand)\<lparr>winners := [''bob'', ''ann'']\<rparr>))"
proof -
  have 1: "''SHOW DOWN'' \<notin> set (splitted ex_hand)"
    by (simp add: ex_hand_def ex_header_line_def)
  have 2: "''SHOW DOWN'' \<in> set (splitted ex_showdown_hand)"
    by (simp add: ex_showdown_hand_def)
  note a = parse_winners_scanned [of ex_hand "(parse_showdown ex_hand)\<lparr>winners := [''W2lkm2n (small blind)'']\<rparr>"]
  note b = parse_winners_scanned [of ex_showdown_hand
      "(parse_showdown ex_showdown_hand)\<lparr>winners := [''bob'', ''ann'']\<rparr>"]
  from a 1 have 3: "\<not> show_down (parse_showdown ex_hand)" by blast
  from b 2 have 4: "show_down (parse_showdown ex_showdown_hand)" by blast
  from b ex_parse_winners(2)
  have 5: "distinct (winners ((parse_showdown ex_showdown_hand)\<lparr>winners := [''bob'', ''ann'']\<rparr>))"
    by blast
  from 1 2 3 4 5 ex_parse_winners show ?thesis by blast
qed

text \<open>
  A hand that ends before the flop has no \<^verbatim>\<open>Board\<close> line, so the line three after the
  last section boundary is the first seat line of the summary.
\<close>

definition ex_noboard ::
  "(nat \<times> int, string, string, string, string \<times> string) HandHistory" where
  "ex_noboard = ex_hand
     \<lparr>splitted :=
        [ex_header_line,
         ''Table '' @ [CHR 0x27] @ ''797469411 15'' @ [CHR 0x27] @ '' 9-max Seat #1 is the button'',
         ''Seat 1: ann (1500 in chips)'',
         ''Seat 2: bob (1500 in chips)'',
         ''ann: posts small blind 10'',
         ''bob: posts big blind 20'',
         [],
         ''HOLE CARDS'',
         ''Dealt to ann [Ac Jh]'',
         ''ann: raises 20 to 40'',
         ''bob: folds'',
         ''Uncalled bet (20) returned to ann'',
         ''ann collected 40 from pot'',
         [],
         ''SUMMARY'',
         ''Total pot 40 | Rake 0'',
         ''Seat 1: ann (button) (small blind) collected (40)'',
         ''Seat 2: bob (big blind) folded before Flop''],
      sections := [6, 13]\<rparr>"

text \<open>
  Claim C3 says that without a showdown the winners are exactly the names that the
  seat-summary grammar captures on the summary lines containing \<^verbatim>\<open>collected\<close>. On
  the hand above, which ends before the flop, the code does otherwise. There is no
  \<^verbatim>\<open>SHOW DOWN\<close> line; the summary line of seat 1 contains \<^verbatim>\<open>collected\<close> and matches
  the seat-summary grammar with the name in group 2; \<^verbatim>\<open>_parse_board\<close> finds that this
  line, three after the section boundary, is no \<^verbatim>\<open>Board\<close> line and leaves it alone;
  yet \<^verbatim>\<open>_parse_winners\<close> starts one line further on all the same, never reads the
  line, and returns no winner at all.
\<close>

theorem C3_first_summary_line_skipped:
  "''SHOW DOWN'' \<notin> set (splitted ex_noboard)
   \<and> show_down (parse_showdown ex_noboard) = False
   \<and> getitem (sections ex_noboard) (- 1) = Inr 13
   \<and> getitem (splitted ex_noboard) 14 = Inr ''SUMMARY''
   \<and> getitem (splitted ex_noboard) 15 = Inr ''Total pot 40 | Rake 0''
   \<and> getitem (splitted ex_noboard) 16 = Inr ''Seat 1: ann (button) (small blind) collected (40)''
   \<and> contains ''Seat 1: ann (button) (small blind) collected (40)'' ''collected''
   \<and> re_match winner_re ''Seat 1: ann (button) (small blind) collected (40)''
       = Some [(''3'', ''40''), (''2'', ''ann (button) (small blind)''), (''1'', ''1'')]
   \<and> parse_board ex_env ex_noboard = Inr ex_noboard
   \<and> parse_winners (parse_showdown ex_noboard)
       = Inr ((parse_showdown ex_noboard)\<lparr>winners := []\<rparr>)"
  by code_simp

section \<open>What a match says about the subject\<close>

lemma rmatch_LitD:
  "(p', r', g') \<in> set (rmatch (Lit s) (p, r, g)) \<Longrightarrow> r = s @ r' \<and> g' = g"
  by (auto simp: startswith_iff split: if_splits)

lemma rmatch_OneD:
  "(p', r', g') \<in> set (rmatch (One c) (p, r, g)) \<Longrightarrow> \<exists>x. r = x # r' \<and> cls_match c x \<and> g' = g"
  by (auto split: list.splits if_splits)

lemma many_D:
  "(p', r', g') \<in> set (many c p r g) \<Longrightarrow> g' = g \<and> (\<exists>pre. r = pre @ r' \<and> list_all (cls_match c) pre)"
proof (induction c p r g rule: many.induct)
  case (1 c p g)
  then show ?case by simp
next
  case (2 c p x xs g)
  from "2.prems" consider "cls_match c x" "(p', r', g') \<in> set (many c (Some x) xs g)"
    | "r' = x # xs" "g' = g"
    by (auto split: if_splits)
  then show ?case
  proof cases
    case 1
    from "2.IH"[OF 1] obtain pre where "g' = g" "xs = pre @ r'" "list_all (cls_match c) pre"
      by auto
    then have "x # xs = (x # pre) @ r'" "list_all (cls_match c) (x # pre)"
      using 1(1) by simp_all
    then show ?thesis using \<open>g' = g\<close> by blast
  next
    case 2
    then have "x # xs = [] @ r'" "list_all (cls_match c) []" by simp_all
    then show ?thesis using 2 by blast
  qed
qed

lemma rmatch_ManyD:
  "(p', r', g') \<in> set (rmatch (Many c) (p, r, g)) \<Longrightarrow>
     g' = g \<and> (\<exists>pre. r = pre @ r' \<and> list_all (cls_match c) pre)"
  by (simp add: many_D)

lemma times_cls_D:
  "(p', r', g') \<in> set (times_cls n c p r g) \<Longrightarrow>
     g' = g \<and> (\<exists>pre. r = pre @ r' \<and> length pre = n \<and> list_all (cls_match c) pre)"
proof (induction n c p r g rule: times_cls.induct)
  case (1 c p r g)
  then show ?case by simp
next
  case (2 n c p g)
  then show ?case by simp
next
  case (3 n c p x xs g)
  then have cx: "cls_match c x" and "(p', r', g') \<in> set (times_cls n c (Some x) xs g)"
    by (auto split: if_splits)
  from "3.IH"[OF this] obtain pre where "g' = g" "xs = pre @ r'" "length pre = n"
    "list_all (cls_match c) pre" by auto
  then have "x # xs = (x # pre) @ r'" "length (x # pre) = Suc n" "list_all (cls_match c) (x # pre)"
    using cx by simp_all
  then show ?case using \<open>g' = g\<close> by blast
qed

lemma rmatch_TimesD:
  "(p', r', g') \<in> set (rmatch (Times n c) (p, r, g)) \<Longrightarrow>
     g' = g \<and> (\<exists>pre. r = pre @ r' \<and> length pre = n \<and> list_all (cls_match c) pre)"
  by (simp add: times_cls_D)

lemma rmatch_SeqD:
  "(p'', r'', g'') \<in> set (rmatch (Seq a b) (p, r, g)) \<Longrightarrow>
     \<exists>p' r' g'. (p', r', g') \<in> set (rmatch a (p, r, g)) \<and> (p'', r'', g'') \<in> set (rmatch b (p', r', g'))"
  by auto

lemma rmatch_AltD:
  "m' \<in> set (rmatch (Alt a b) m) \<Longrightarrow> m' \<in> set (rmatch a m) \<or> m' \<in> set (rmatch b m)"
  by auto

lemma rmatch_GroupD:
  "(p', r', g') \<in> set (rmatch (Group k a) (p, r, g)) \<Longrightarrow>
     \<exists>h. (p', r', h) \<in> set (rmatch a (p, r, g)) \<and> g' = (k, take (length r - length r') r) # h"
  by auto

lemma rmatch_BolD:
  "(p', r', g') \<in> set (rmatch Bol (p, r, g)) \<Longrightarrow> r' = r \<and> g' = g"
  by (auto split: if_splits)

lemma rmatch_EolD:
  "(p', r', g') \<in> set (rmatch Eol (p, r, g)) \<Longrightarrow> r' = r \<and> g' = g \<and> (r = [] \<or> r = [CHR 0x0A])"
  by (auto split: if_splits)

lemma re_matchD:
  "re_match re s = Some g \<Longrightarrow> \<exists>p r. (p, r, g) \<in> set (rmatch re (None, s, []))"
  by (auto simp: re_match_def split: list.splits)

lemmas rmatchD = rmatch_LitD rmatch_OneD rmatch_ManyD rmatch_TimesD rmatch_GroupD
  rmatch_BolD rmatch_EolD

lemma seat_re_shape:
  assumes "re_match seat_re line = Some m"
  shows "\<exists>d nm stk e. line = ''Seat '' @ [d] @ '': '' @ nm @ '' ('' @ stk @ '' in chips)'' @ e
     \<and> is_digit d \<and> list_all is_digit stk \<and> CHR 0x0A \<notin> set nm \<and> (e = [] \<or> e = [CHR 0x0A])
     \<and> match_group m ''seat'' = [d] \<and> match_group m ''name'' = nm \<and> match_group m ''stack'' = stk"
proof -
  from re_matchD[OF assms] obtain p r where "(p, r, m) \<in> set (rmatch seat_re (None, line, []))"
    by blast
  then show ?thesis
    unfolding seat_re_def seqs.simps
    apply (elim rmatch_SeqD[THEN exE] conjE exE)
    apply (drule rmatchD)+
    apply (elim rmatch_SeqD[THEN exE] rmatch_GroupD[THEN exE] conjE exE)
    apply (drule rmatchD)+
    apply (auto simp: match_group_def list_all_iff)
    done
qed


lemma table_re_shape:
  assumes "re_match table_re line = Some m"
  shows "\<exists>nm d b e. line = ''Table '' @ [CHR 0x27] @ nm @ [CHR 0x27] @ '' '' @ [d]
        @ ''-max Seat #'' @ [b] @ '' is the button'' @ e
     \<and> is_digit d \<and> is_digit b \<and> CHR 0x0A \<notin> set nm \<and> (e = [] \<or> e = [CHR 0x0A])
     \<and> match_group m ''1'' = nm \<and> match_group m ''2'' = [d] \<and> match_group m ''button'' = [b]"
proof -
  from re_matchD[OF assms] obtain p r where "(p, r, m) \<in> set (rmatch table_re (None, line, []))"
    by blast
  then show ?thesis
    unfolding table_re_def seqs.simps
    apply (elim rmatch_SeqD[THEN exE] conjE exE)
    apply (drule rmatchD)+
    apply (elim rmatch_SeqD[THEN exE] rmatch_GroupD[THEN exE] conjE exE)
    apply (drule rmatchD)+
    apply (auto simp: match_group_def list_all_iff)
    done
qed

lemma py_int_digit: "is_digit d \<Longrightarrow> py_int [d] = Inr (digit_val d)"
  by (simp add: py_int_def)

lemma digit_val_le_9: "is_digit d \<Longrightarrow> digit_val d \<le> 9"
  by (auto simp: is_digit_def digit_val_def)

section \<open>Seat and button numbers of two digits\<close>

lemma table_re_two_digits:
  assumes ds: "list_all is_digit ds" and bs: "list_all is_digit bs"
    and two: "2 \<le> length ds \<or> 2 \<le> length bs"
  shows "re_match table_re
           (''Table '' @ [CHR 0x27] @ nm @ [CHR 0x27] @ '' '' @ ds @ ''-max Seat #'' @ bs
              @ '' is the button'') = None"
proof (rule ccontr)
  assume "re_match table_re
           (''Table '' @ [CHR 0x27] @ nm @ [CHR 0x27] @ '' '' @ ds @ ''-max Seat #'' @ bs
              @ '' is the button'') \<noteq> None"
  then obtain m where "re_match table_re
           (''Table '' @ [CHR 0x27] @ nm @ [CHR 0x27] @ '' '' @ ds @ ''-max Seat #'' @ bs
              @ '' is the button'') = Some m" by auto
  from table_re_shape[OF this] obtain nm' d b e where
    eq: "nm @ [CHR 0x27] @ '' '' @ ds @ ''-max Seat #'' @ bs @ '' is the button''
         = nm' @ [CHR 0x27] @ '' '' @ [d] @ ''-max Seat #'' @ [b] @ '' is the button'' @ e"
    and d: "is_digit d" and b: "is_digit b" and e: "e = [] \<or> e = [CHR 0x0A]"
    by auto
  have dsd: "\<And>x. x \<in> set (rev ds) \<Longrightarrow> is_digit x" and bsd: "\<And>x. x \<in> set (rev bs) \<Longrightarrow> is_digit x"
    using ds bs by (auto simp: list_all_iff)
  have nd: "\<not> is_digit CHR ''#''" "\<not> is_digit CHR '' ''"
    by (simp_all add: is_digit_def)
  note r = arg_cong[OF eq, of rev]
  from e r have e0: "e = []" by auto
  have lb: "length (rev bs) = 1"
  proof (cases "rev bs" rule: remdups_adj.cases)
    case 1
    with r e0 b nd show ?thesis by auto
  next
    case (2 x)
    then show ?thesis by simp
  next
    case (3 x y zs)
    with r e0 have "y = CHR ''#''" by simp
    moreover have "is_digit y" using 3 bsd by simp
    ultimately show ?thesis using nd by simp
  qed
  then obtain x where x: "rev bs = [x]"
    by (cases "rev bs") auto
  have ld: "length (rev ds) = 1"
  proof (cases "rev ds" rule: remdups_adj.cases)
    case 1
    with r e0 x d nd show ?thesis by auto
  next
    case (2 x)
    then show ?thesis by simp
  next
    case (3 u y zs)
    with r e0 x have "y = CHR '' ''" by simp
    moreover have "is_digit y" using 3 dsd by simp
    ultimately show ?thesis using nd by simp
  qed
  from lb ld two show False by simp
qed

lemma seat_re_two_digits:
  assumes ds: "list_all is_digit ds" and two: "2 \<le> length ds"
  shows "re_match seat_re (''Seat '' @ ds @ '': '' @ rest) = None"
proof (rule ccontr)
  assume "re_match seat_re (''Seat '' @ ds @ '': '' @ rest) \<noteq> None"
  then obtain m where "re_match seat_re (''Seat '' @ ds @ '': '' @ rest) = Some m" by auto
  from seat_re_shape[OF this] obtain d t where
    eq: "ds @ '': '' @ rest = [d] @ '': '' @ t"
    by auto
  from two obtain d1 d2 ds' where ds': "ds = d1 # d2 # ds'"
    by (cases ds rule: remdups_adj.cases) auto
  with eq have "d2 = CHR '':''" by simp
  moreover have "is_digit d2" using ds ds' by simp
  ultimately show False by (simp add: is_digit_def)
qed

text \<open>
  Claim C9, as the code has it. The table and the seat grammar take one digit for the
  max-seat count, the button seat and the seat number. A table line with a count or
  a button seat of two or more digits does not match, and \<^verbatim>\<open>_parse_table\<close> then
  raises (\<^verbatim>\<open>.group\<close> on \<^verbatim>\<open>None\<close>), so a hand at a table of ten or more seats is not
  parsed. A seat line with a seat number of two or more digits does not match
  either; there \<^verbatim>\<open>_parse_players\<close> does not raise: it takes the line for the end of
  the seats, stops, and returns the players read so far, so neither that line nor
  any line after it gives a player.
\<close>

theorem C9_single_digit:
  "(\<forall>m. re_match table_re line = Some m \<longrightarrow>
      (\<exists>d b. is_digit d \<and> is_digit b \<and> match_group m ''2'' = [d] \<and> match_group m ''button'' = [b]))
   \<and> (\<forall>m. re_match seat_re line = Some m \<longrightarrow>
      (\<exists>d. is_digit d \<and> match_group m ''seat'' = [d]))
   \<and> (list_all is_digit ds \<and> list_all is_digit bs \<and> (2 \<le> length ds \<or> 2 \<le> length bs)
      \<and> line = ''Table '' @ [CHR 0x27] @ nm @ [CHR 0x27] @ '' '' @ ds @ ''-max Seat #'' @ bs
                 @ '' is the button''
      \<longrightarrow> re_match table_re line = None
        \<and> (getitem (splitted st) 1 = Inr line \<longrightarrow> parse_table st = Inl AttributeError))
   \<and> (list_all is_digit ds \<and> 2 \<le> length ds \<and> line = ''Seat '' @ ds @ '': '' @ rest
      \<longrightarrow> re_match seat_re line = None
        \<and> parse_players_loop ps (line # later) = Inr ps
        \<and> parse_players_loop ps (before @ line # later) = parse_players_loop ps before)"
proof (intro conjI allI impI)
  fix m assume "re_match table_re line = Some m"
  from table_re_shape[OF this]
  show "\<exists>d b. is_digit d \<and> is_digit b \<and> match_group m ''2'' = [d] \<and> match_group m ''button'' = [b]"
    by blast
next
  fix m assume "re_match seat_re line = Some m"
  from seat_re_shape[OF this]
  show "\<exists>d. is_digit d \<and> match_group m ''seat'' = [d]"
    by blast
next
  assume a: "list_all is_digit ds \<and> list_all is_digit bs \<and> (2 \<le> length ds \<or> 2 \<le> length bs)
      \<and> line = ''Table '' @ [CHR 0x27] @ nm @ [CHR 0x27] @ '' '' @ ds @ ''-max Seat #'' @ bs
                 @ '' is the button''"
  then show n: "re_match table_re line = None"
    using table_re_two_digits[of ds bs nm] by simp
  assume "getitem (splitted st) 1 = Inr line"
  with n show "parse_table st = Inl AttributeError"
    by (simp add: parse_table_def)
next
  assume a: "list_all is_digit ds \<and> 2 \<le> length ds \<and> line = ''Seat '' @ ds @ '': '' @ rest"
  then show n: "re_match seat_re line = None"
    using seat_re_two_digits[of ds rest] by simp
  then show "parse_players_loop ps (line # later) = Inr ps"
    by simp
  show "parse_players_loop ps (before @ line # later) = parse_players_loop ps before"
    using n
    by (induction ps before rule: parse_players_loop.induct)
       (simp_all split: option.splits sum.splits)
qed

definition ex_ten_hand ::
  "(nat \<times> int, string, string, string, string \<times> string) HandHistory" where
  "ex_ten_hand = ex_hand
     \<lparr>splitted :=
        [ex_header_line,
         ''Table '' @ [CHR 0x27] @ ''7 15'' @ [CHR 0x27] @ '' 10-max Seat #1 is the button'',
         ''Seat 10: bob (1500 in chips)'',
         ''Seat 1: ann (1500 in chips)''],
      max_players := Some 9\<rparr>"

theorem C9_single_digit_witness:
  "re_match table_re (''Table '' @ [CHR 0x27] @ ''7 15'' @ [CHR 0x27] @ '' 10-max Seat #1 is the button'')
     = None
   \<and> parse_table ex_ten_hand = Inl AttributeError
   \<and> re_match seat_re ''Seat 10: bob (1500 in chips)'' = None
   \<and> parse_players_loop (init_seats ex_env 9)
        [''Seat 10: bob (1500 in chips)'', ''Seat 1: ann (1500 in chips)'']
       = Inr (init_seats ex_env 9)
   \<and> re_match seat_re ''Seat 1: ann (1500 in chips)''
       = Some [(''stack'', ''1500''), (''name'', ''ann''), (''seat'', ''1'')]
   \<and> (\<exists>d. is_digit d
         \<and> match_group [(''stack'', ''1500''), (''name'', ''ann''), (''seat'', ''1'')] ''seat'' = [d])"
proof -
  have t: "list_all is_digit ''10'' \<and> list_all is_digit ''1''
      \<and> (2 \<le> length ''10'' \<or> 2 \<le> length ''1'')
      \<and> ''Table '' @ [CHR 0x27] @ ''7 15'' @ [CHR 0x27] @ '' 10-max Seat #1 is the button''
        = ''Table '' @ [CHR 0x27] @ ''7 15'' @ [CHR 0x27] @ '' '' @ ''10'' @ ''-max Seat #'' @ ''1''
            @ '' is the button''"
    by (simp add: is_digit_def)
  have g: "getitem (splitted ex_ten_hand) 1
      = Inr (''Table '' @ [CHR 0x27] @ ''7 15'' @ [CHR 0x27] @ '' 10-max Seat #1 is the button'')"
    by (simp add: ex_ten_hand_def getitem_def)
  have u: "list_all is_digit ''10'' \<and> 2 \<le> length ''10''
      \<and> ''Seat 10: bob (1500 in chips)'' = ''Seat '' @ ''10'' @ '': '' @ ''bob (1500 in chips)''"
    by (simp add: is_digit_def)
  have v: "re_match seat_re ''Seat 1: ann (1500 in chips)''
      = Some [(''stack'', ''1500''), (''name'', ''ann''), (''seat'', ''1'')]"
    by code_simp
  note a = C9_single_digit
    [of "''Table '' @ [CHR 0x27] @ ''7 15'' @ [CHR 0x27] @ '' 10-max Seat #1 is the button''"
        "''10''" "''1''" "''7 15''" ex_ten_hand]
  note b = C9_single_digit
    [of "''Seat 10: bob (1500 in chips)''" "''10''" _ _ _ "''bob (1500 in chips)''"
        "init_seats ex_env 9" "[''Seat 1: ann (1500 in chips)'']"]
  note c = C9_single_digit [of "''Seat 1: ann (1500 in chips)''"]
  from a t g have 1: "re_match table_re
      (''Table '' @ [CHR 0x27] @ ''7 15'' @ [CHR 0x27] @ '' 10-max Seat #1 is the button'') = None"
    "parse_table ex_ten_hand = Inl AttributeError"
    by blast+
  from b u have 2: "re_match seat_re ''Seat 10: bob (1500 in chips)'' = None"
    "parse_players_loop (init_seats ex_env 9)
        [''Seat 10: bob (1500 in chips)'', ''Seat 1: ann (1500 in chips)'']
       = Inr (init_seats ex_env 9)"
    by blast+
  from c v have 3: "\<exists>d. is_digit d
         \<and> match_group [(''stack'', ''1500''), (''name'', ''ann''), (''seat'', ''1'')] ''seat'' = [d]"
    by blast
  from 1 2 3 v show ?thesis by blast
qed

text \<open>
  A hand whose first seat line is \<^verbatim>\<open>Seat 10: bob (1500 in chips)\<close>: the line does not
  match, and \<^verbatim>\<open>_parse_players\<close> returns without error, with every seat a placeholder
  (the line of seat 1 after it is not read either).
\<close>

theorem C9_counterexample:
  "re_match seat_re ''Seat 10: bob (1500 in chips)'' = None
   \<and> parse_players ex_env ex_ten_hand = Inr (ex_ten_hand\<lparr>players := init_seats ex_env 9\<rparr>)"
  by code_simp

section \<open>Seats\<close>

text \<open>
  What one seat line contributes: its seat number and the player built from it, when
  the line matches the seat grammar and both numbers convert. \<open>place\<close> is one
  assignment \<^verbatim>\<open>self.players[index] = _Player(...)\<close> for a seat number within the array.
\<close>

definition seat_entry :: "string \<Rightarrow> (nat \<times> 'k Player) option" where
  "seat_entry line =
     (case re_match seat_re line of
        None \<Rightarrow> None
      | Some m \<Rightarrow>
          (case py_int (match_group m ''seat'') of
             Inl e \<Rightarrow> None
           | Inr n \<Rightarrow>
               (case py_int (match_group m ''stack'') of
                  Inl e \<Rightarrow> None
                | Inr chips \<Rightarrow>
                    Some (n, \<lparr>name = match_group m ''name'', stack = chips, seat = n,
                              combo = None\<rparr>))))"

definition place :: "string \<Rightarrow> 'k Player list \<Rightarrow> 'k Player list" where
  "place line ps = (case seat_entry line of None \<Rightarrow> ps | Some (k, pl) \<Rightarrow> ps[k - 1 := pl])"

lemma length_place: "length (place l ps) = length ps"
  by (simp add: place_def split: option.splits)

lemma length_fold_place: "length (fold place pre ps) = length ps"
  by (induction pre arbitrary: ps) (simp_all add: length_place)

lemma parse_players_loop_fold:
  assumes "\<forall>l \<in> set pre. \<exists>k pl. seat_entry l = Some (k, pl :: 'k Player) \<and> 1 \<le> k \<and> k \<le> length ps"
    and "rest = [] \<or> re_match seat_re (hd rest) = None"
  shows "parse_players_loop (ps :: 'k Player list) (pre @ rest) = Inr (fold place pre ps)"
  using assms(1)
proof (induction pre arbitrary: ps)
  case Nil
  from assms(2) show ?case by (cases rest) auto
next
  case (Cons l pre)
  from Cons.prems obtain k and pl :: "'k Player" where e: "seat_entry l = Some (k, pl)"
    and k: "1 \<le> k" "k \<le> length ps" by auto
  from e obtain m chips where m: "re_match seat_re l = Some m"
    "py_int (match_group m ''seat'') = Inr k" "py_int (match_group m ''stack'') = Inr chips"
    "pl = \<lparr>name = match_group m ''name'', stack = chips, seat = k, combo = None\<rparr>"
    by (auto simp: seat_entry_def split: option.splits sum.splits)
  have s: "setitem ps (int k - 1) pl = Inr (ps[k - 1 := pl])"
    using k by (auto simp: setitem_def Let_def nat_diff_distrib')
  have p: "place l ps = ps[k - 1 := pl]"
    by (simp add: place_def e)
  have "\<forall>l \<in> set pre. \<exists>k pl. seat_entry l = Some (k, pl :: 'k Player) \<and> 1 \<le> k
      \<and> k \<le> length (ps[k - 1 := pl])"
    using Cons.prems by simp
  then have ih: "parse_players_loop (ps[k - 1 := pl]) (pre @ rest) = Inr (fold place pre (ps[k - 1 := pl]))"
    using Cons.IH[of "ps[k - 1 := pl]"] Cons.prems by simp
  show ?case
    using m s ih p by simp
qed

lemma fold_place_untouched:
  assumes "\<forall>l \<in> set pre. \<exists>k pl. seat_entry l = Some (k, pl :: 'k Player) \<and> 1 \<le> k"
    and "\<forall>l \<in> set pre. \<forall>pl :: 'k Player. seat_entry l \<noteq> Some (Suc i, pl)"
  shows "fold place pre (ps :: 'k Player list) ! i = ps ! i"
  using assms
proof (induction pre arbitrary: ps)
  case Nil
  then show ?case by simp
next
  case (Cons l pre)
  from Cons.prems obtain k and pl :: "'k Player" where e: "seat_entry l = Some (k, pl)"
    and k: "1 \<le> k" by auto
  from Cons.prems(2) e have "k \<noteq> Suc i" by auto
  with k have "k - 1 \<noteq> i" by arith
  then have "place l ps ! i = ps ! i"
    by (simp add: place_def e)
  moreover have "fold place pre (place l ps) ! i = place l ps ! i"
    using Cons.IH[of "place l ps"] Cons.prems by simp
  ultimately show ?case by simp
qed

lemma fold_place_last:
  assumes "\<forall>l \<in> set pre. \<exists>k pl. seat_entry l = Some (k, pl :: 'k Player) \<and> 1 \<le> k \<and> k \<le> length ps"
    and "j < length pre" and "seat_entry (pre ! j) = Some (k, pl)"
    and "\<forall>j' pl'. j < j' \<and> j' < length pre \<longrightarrow> seat_entry (pre ! j') \<noteq> Some (k, pl' :: 'k Player)"
  shows "fold place pre (ps :: 'k Player list) ! (k - 1) = pl"
  using assms
proof (induction pre rule: rev_induct)
  case Nil
  then show ?case by simp
next
  case (snoc x xs)
  show ?case
  proof (cases "j = length xs")
    case True
    with snoc.prems have e: "seat_entry x = Some (k, pl)" by simp
    from snoc.prems(1) e have "1 \<le> k" "k \<le> length ps" by auto
    then have "k - 1 < length (fold place xs ps)"
      by (simp add: length_fold_place)
    moreover have "\<And>ys. place x ys = ys[k - 1 := pl]"
      by (simp add: place_def e)
    ultimately show ?thesis
      by simp
  next
    case False
    with snoc.prems have j: "j < length xs" by simp
    from snoc.prems(1) obtain k' and pl' :: "'k Player" where e': "seat_entry x = Some (k', pl')"
      and k': "1 \<le> k'" by auto
    from snoc.prems(4)[rule_format, of "length xs" pl'] j e' have "k' \<noteq> k"
      by auto
    have kk: "1 \<le> k"
      using snoc.prems(1,3) j by (auto simp: nth_append dest!: bspec[where x="xs ! j"])
    from \<open>k' \<noteq> k\<close> k' kk have ne: "k' - 1 \<noteq> k - 1" by arith
    have "fold place xs ps ! (k - 1) = pl"
    proof (rule snoc.IH)
      show "\<forall>l\<in>set xs. \<exists>k pl. seat_entry l = Some (k, pl :: 'k Player) \<and> 1 \<le> k \<and> k \<le> length ps"
        using snoc.prems(1) by simp
      show "j < length xs" by (rule j)
      show "seat_entry (xs ! j) = Some (k, pl)"
        using snoc.prems(3) j by (simp add: nth_append)
      show "\<forall>j' pl'. j < j' \<and> j' < length xs \<longrightarrow> seat_entry (xs ! j') \<noteq> Some (k, pl' :: 'k Player)"
      proof (intro allI impI)
        fix j' and pl' :: "'k Player"
        assume a: "j < j' \<and> j' < length xs"
        with snoc.prems(4)[rule_format, of j' pl']
        show "seat_entry (xs ! j') \<noteq> Some (k, pl')"
          by (simp add: nth_append)
      qed
    qed
    moreover have "\<And>ys. place x ys = ys[k' - 1 := pl']"
      by (simp add: place_def e')
    ultimately show ?thesis
      using ne by simp
  qed
qed

lemma init_seats_nth: "i < n \<Longrightarrow> init_seats env n ! i = empty_seat env i"
  by (simp add: init_seats_def)

text \<open>
  Claim C5, as the code has it. \<^verbatim>\<open>_parse_players\<close> reads the lines from the third on
  and stops at the first that does not match the seat grammar; the lines after it are
  not looked at. When every line before that point has a seat number \<open>N\<close> between 1
  and the max-seat count and a stack that is not empty, the method returns a player
  array of the max-seat count in which each such line has put its player at index
  \<open>N - 1\<close> (a later line with the same number replaces an earlier one), and every
  index whose number occurs on no such line still holds its placeholder.
\<close>

theorem C5_seats:
  fixes st :: "('d, 'e, 't, 'c, 'k) HandHistory"
  assumes "max_players st = Some n"
    and "slice (splitted st) (Some 2) None = pre @ rest"
    and "\<forall>l \<in> set pre. \<exists>k pl. seat_entry l = Some (k, pl :: 'k Player) \<and> 1 \<le> k \<and> k \<le> n"
    and "rest = [] \<or> re_match seat_re (hd rest) = None"
  shows "\<exists>ps. parse_players env st = Inr (st\<lparr>players := ps\<rparr>) \<and> length ps = n
     \<and> (\<forall>j k pl. j < length pre \<and> seat_entry (pre ! j) = Some (k, pl)
           \<and> (\<forall>j' pl'. j < j' \<and> j' < length pre
                 \<longrightarrow> seat_entry (pre ! j') \<noteq> Some (k, pl' :: 'k Player))
           \<longrightarrow> ps ! (k - 1) = pl)
     \<and> (\<forall>i < n. (\<forall>l \<in> set pre. \<forall>pl :: 'k Player. seat_entry l \<noteq> Some (Suc i, pl))
           \<longrightarrow> ps ! i = empty_seat env i)"
proof -
  let ?init = "init_seats env n"
  let ?ps = "fold place pre ?init"
  have len: "length ?init = n" by (simp add: init_seats_def)
  have ok: "\<forall>l \<in> set pre. \<exists>k pl. seat_entry l = Some (k, pl :: 'k Player) \<and> 1 \<le> k
      \<and> k \<le> length ?init"
    using assms(3) len by simp
  have "parse_players_loop ?init (pre @ rest) = Inr ?ps"
    by (rule parse_players_loop_fold[OF ok assms(4)])
  then have 1: "parse_players env st = Inr (st\<lparr>players := ?ps\<rparr>)"
    by (simp add: parse_players_def assms(1,2))
  have 2: "length ?ps = n"
    by (simp add: length_fold_place len)
  have 3: "?ps ! (k - 1) = pl"
    if "j < length pre \<and> seat_entry (pre ! j) = Some (k, pl)
           \<and> (\<forall>j' pl'. j < j' \<and> j' < length pre
                 \<longrightarrow> seat_entry (pre ! j') \<noteq> Some (k, pl' :: 'k Player))"
    for j k pl
  proof -
    from that have a: "j < length pre" and b: "seat_entry (pre ! j) = Some (k, pl)"
      and c: "\<forall>j' pl'. j < j' \<and> j' < length pre
                 \<longrightarrow> seat_entry (pre ! j') \<noteq> Some (k, pl' :: 'k Player)"
      by blast+
    show ?thesis by (rule fold_place_last[OF ok a b c])
  qed
  have 4: "?ps ! i = empty_seat env i"
    if "i < n" and "\<forall>l \<in> set pre. \<forall>pl :: 'k Player. seat_entry l \<noteq> Some (Suc i, pl)" for i
  proof -
    have "\<forall>l \<in> set pre. \<exists>k pl. seat_entry l = Some (k, pl :: 'k Player) \<and> 1 \<le> k"
      using assms(3) by blast
    from fold_place_untouched[OF this that(2), of ?init] init_seats_nth[OF that(1), of env]
    show ?thesis by simp
  qed
  from 1 2 3 4 show ?thesis by blast
qed

definition ex_tabled ::
  "(nat \<times> int, string, string, string, string \<times> string) HandHistory" where
  "ex_tabled = ex_hand\<lparr>max_players := Some 9\<rparr>"

lemma ex_seat_entries:
  "seat_entry ''Seat 1: flettl2 (1500 in chips)''
     = Some (1, \<lparr>name = ''flettl2'', stack = 1500, seat = 1, combo = None :: (string \<times> string) option\<rparr>)"
  "seat_entry ''Seat 3: W2lkm2n (3000 in chips)''
     = Some (3, \<lparr>name = ''W2lkm2n'', stack = 3000, seat = 3, combo = None :: (string \<times> string) option\<rparr>)"
  "seat_entry ''Seat 4: pmmr (1500 in chips)''
     = Some (4, \<lparr>name = ''pmmr'', stack = 1500, seat = 4, combo = None :: (string \<times> string) option\<rparr>)"
  by code_simp+

lemma ex_parse_players:
  "parse_players ex_env ex_tabled = Inr (ex_tabled\<lparr>players :=
     [\<lparr>name = ''flettl2'', stack = 1500, seat = 1, combo = None\<rparr>,
      empty_seat ex_env 1,
      \<lparr>name = ''W2lkm2n'', stack = 3000, seat = 3, combo = None\<rparr>,
      \<lparr>name = ''pmmr'', stack = 1500, seat = 4, combo = None\<rparr>,
      empty_seat ex_env 4, empty_seat ex_env 5, empty_seat ex_env 6, empty_seat ex_env 7,
      empty_seat ex_env 8]\<rparr>)"
  by code_simp

theorem C5_seats_witness:
  "(\<exists>ps. parse_players ex_env ex_tabled = Inr (ex_tabled\<lparr>players := ps\<rparr>) \<and> length ps = 9)
   \<and> parse_players ex_env ex_tabled = Inr (ex_tabled\<lparr>players :=
     [\<lparr>name = ''flettl2'', stack = 1500, seat = 1, combo = None\<rparr>,
      empty_seat ex_env 1,
      \<lparr>name = ''W2lkm2n'', stack = 3000, seat = 3, combo = None\<rparr>,
      \<lparr>name = ''pmmr'', stack = 1500, seat = 4, combo = None\<rparr>,
      empty_seat ex_env 4, empty_seat ex_env 5, empty_seat ex_env 6, empty_seat ex_env 7,
      empty_seat ex_env 8]\<rparr>)"
proof -
  let ?pre = "[''Seat 1: flettl2 (1500 in chips)'', ''Seat 3: W2lkm2n (3000 in chips)'',
               ''Seat 4: pmmr (1500 in chips)'']"
  let ?rest = "drop 5 (splitted ex_hand)"
  have 1: "max_players ex_tabled = Some 9"
    by (simp add: ex_tabled_def)
  have 2: "slice (splitted ex_tabled) (Some 2) None = ?pre @ ?rest"
    by code_simp
  have 3: "\<forall>l \<in> set ?pre. \<exists>k pl. seat_entry l = Some (k, pl :: (string \<times> string) Player)
      \<and> 1 \<le> k \<and> k \<le> 9"
    by (simp add: ex_seat_entries)
  have 4: "?rest = [] \<or> re_match seat_re (hd ?rest) = None"
    by code_simp
  from C5_seats [OF 1 2 3 4, of ex_env]
  have "\<exists>ps. parse_players ex_env ex_tabled = Inr (ex_tabled\<lparr>players := ps\<rparr>) \<and> length ps = 9"
    by blast
  with ex_parse_players show ?thesis by blast
qed

text \<open>
  At a table of two seats the line \<^verbatim>\<open>Seat 5: bob (100 in chips)\<close> matches the seat
  grammar, and no player is placed: the assignment raises IndexError. A line with an
  empty stack matches as well and raises ValueError.
\<close>

theorem C5_counterexample:
  "re_match seat_re ''Seat 5: bob (100 in chips)''
     = Some [(''stack'', ''100''), (''name'', ''bob''), (''seat'', ''5'')]
   \<and> parse_players ex_env
        (ex_hand\<lparr>splitted := [ex_header_line, [], ''Seat 5: bob (100 in chips)''],
                 max_players := Some 2\<rparr>) = Inl IndexError
   \<and> re_match seat_re ''Seat 1: bob ( in chips)''
     = Some [(''stack'', []), (''name'', ''bob''), (''seat'', ''1'')]
   \<and> parse_players ex_env
        (ex_hand\<lparr>splitted := [ex_header_line, [], ''Seat 1: bob ( in chips)''],
                 max_players := Some 2\<rparr>) = Inl ValueError"
  by code_simp

section \<open>The board\<close>

text \<open>A card text of the board line: two characters, none a blank, a bracket or a newline.\<close>

definition card_token :: "string \<Rightarrow> bool" where
  "card_token t \<longleftrightarrow> length t = 2 \<and> (\<forall>c \<in> set t. c \<notin> set '' []'' \<and> c \<noteq> CHR 0x0A)"

lemma card_tokenE:
  assumes "card_token t"
  obtains a b where "t = [a, b]" "a \<noteq> CHR '' ''" "a \<noteq> CHR ''[''" "a \<noteq> CHR '']''" "a \<noteq> CHR 0x0A"
    "b \<noteq> CHR '' ''" "b \<noteq> CHR ''[''" "b \<noteq> CHR '']''" "b \<noteq> CHR 0x0A"
proof -
  from assms obtain a b where "t = [a, b]"
    by (cases t rule: remdups_adj.cases) (auto simp: card_token_def)
  with assms that show thesis
    by (auto simp: card_token_def)
qed

text \<open>Card texts written one after another with a blank between them.\<close>

fun joined :: "string list \<Rightarrow> string" where
  "joined [] = []"
| "joined [t] = t"
| "joined (t # ts) = t @ '' '' @ joined ts"

lemmas board_eval = findall_from.simps board_re_def advances_def match_group_def

lemma findall_from_close:
  "b \<noteq> CHR '' '' \<Longrightarrow> b \<noteq> CHR ''['' \<Longrightarrow> findall_from board_re False (Some b) '']'' = []"
  by (simp add: board_eval)

lemma findall_from_joined:
  assumes "ts \<noteq> []" and "\<forall>t \<in> set ts. card_token t" and "p = CHR '' '' \<or> p = CHR ''[''"
  shows "findall_from board_re False (Some p) (joined ts @ '']'') = map (\<lambda>t. [(''1'', t)]) ts"
  using assms
proof (induction ts arbitrary: p rule: joined.induct)
  case 1
  then show ?case by simp
next
  case (2 t)
  then have "card_token t" by simp
  then obtain a b where t: "t = [a, b]" "a \<noteq> CHR 0x0A" "b \<noteq> CHR '' ''" "b \<noteq> CHR ''[''"
    "b \<noteq> CHR '']''" "b \<noteq> CHR 0x0A"
    by (rule card_tokenE)
  have "findall_from board_re False (Some p) ([a, b] @ '']'')
      = [(''1'', [a, b])] # findall_from board_re False (Some b) '']''"
    using t(2-) "2.prems"(3)
    by (subst findall_from.simps) (auto simp: board_re_def advances_def)
  then show ?case
    using t by (simp add: findall_from_close)
next
  case (3 t u us)
  then have "card_token t" by simp
  then obtain a b where t: "t = [a, b]" "a \<noteq> CHR 0x0A" "b \<noteq> CHR '' ''" "b \<noteq> CHR ''[''"
    "b \<noteq> CHR '']''" "b \<noteq> CHR 0x0A"
    by (rule card_tokenE)
  let ?more = "joined (u # us) @ '']''"
  have ih: "findall_from board_re False (Some CHR '' '') ?more = map (\<lambda>t. [(''1'', t)]) (u # us)"
    using "3.IH"[of "CHR '' ''"] "3.prems" by simp
  have 1: "findall_from board_re False (Some p) ([a, b] @ '' '' @ ?more)
      = [(''1'', [a, b])] # findall_from board_re False (Some b) ('' '' @ ?more)"
    using t(2-) "3.prems"(3)
    by (subst findall_from.simps) (auto simp: board_re_def advances_def)
  have 2: "findall_from board_re False (Some b) ('' '' @ ?more)
      = findall_from board_re False (Some CHR '' '') ?more"
    using t(2-)
    by (subst findall_from.simps) (auto simp: board_re_def advances_def)
  show ?case
    using 1 2 ih t(1) by simp
qed

lemma findall_from_skip:
  assumes "p = None \<or> (\<exists>q. p = Some q \<and> q \<noteq> CHR '' '' \<and> q \<noteq> CHR ''['')"
  shows "findall_from board_re False p (x # xs) = findall_from board_re False (Some x) xs"
  using assms
  by (subst findall_from.simps) (auto simp: board_re_def advances_def)

lemma findall_from_open:
  assumes "b \<noteq> CHR '' ''" "b \<noteq> CHR '']''"
  shows "findall_from board_re False (Some CHR '' '') (CHR ''['' # a # b # xs)
         = findall_from board_re False (Some CHR ''['') (a # b # xs)"
  using assms
  by (subst findall_from.simps) (auto simp: board_re_def advances_def)

lemma joined_first:
  assumes "ts \<noteq> []" and "\<forall>t \<in> set ts. card_token t"
  shows "\<exists>a b xs. joined ts = a # b # xs \<and> b \<noteq> CHR '' '' \<and> b \<noteq> CHR '']''"
proof (cases ts rule: joined.cases)
  case 1
  with assms show ?thesis by simp
next
  case (2 t)
  with assms have "card_token t" by simp
  then show ?thesis using 2 by (auto elim!: card_tokenE)
next
  case (3 t u us)
  with assms have "card_token t" by simp
  then show ?thesis using 3 by (auto elim!: card_tokenE)
qed

lemma findall_board:
  assumes "ts \<noteq> []" and "\<forall>t \<in> set ts. card_token t"
  shows "findall board_re (''Board ['' @ joined ts @ '']'') = ts"
proof -
  from joined_first[OF assms] obtain a b xs where j: "joined ts = a # b # xs"
    and b: "b \<noteq> CHR '' ''" "b \<noteq> CHR '']''" by blast
  have "findall_from board_re False None (''Board ['' @ joined ts @ '']'')
      = findall_from board_re False (Some CHR '' '') (CHR ''['' # a # b # xs @ '']'')"
    unfolding j by (simp add: findall_from_skip)
  also have "\<dots> = findall_from board_re False (Some CHR ''['') (joined ts @ '']'')"
    unfolding j using findall_from_open[OF b] by simp
  also have "\<dots> = map (\<lambda>t. [(''1'', t)]) ts"
    by (rule findall_from_joined[OF assms]) simp
  finally show ?thesis
    by (simp add: findall_def match_group_def comp_def)
qed

lemma parse_board_eq:
  assumes "getitem (sections st) (- 1) = Inr s" and "getitem (splitted st) (int s + 3) = Inr boardline"
    and "startswith boardline ''Board''"
  shows "parse_board env st =
     (case (if 3 < length (findall board_re boardline)
            then map_sum id Some (Card env (findall board_re boardline ! 3)) else Inr None) of
        Inl e \<Rightarrow> Inl e
      | Inr v_turn \<Rightarrow>
     (case (if 4 < length (findall board_re boardline)
            then map_sum id Some (Card env (findall board_re boardline ! 4)) else Inr None) of
        Inl e \<Rightarrow> Inl e
      | Inr v_river \<Rightarrow> Inr (st\<lparr>streets := (streets st)\<lparr>turn := v_turn, river := v_river\<rparr>\<rparr>)))"
  using assms by (simp add: parse_board_def Let_def)

text \<open>
  Claim C8. \<^verbatim>\<open>_parse_board\<close> reads the line three after the last section boundary.
  When that line does not start with \<^verbatim>\<open>Board\<close> the method returns and nothing
  changes, so turn and river stay as they were. When it does, and the method
  returns, the turn is the card of the token at index 3 of the tokens that
  \<^verbatim>\<open>findall\<close> finds, or \<open>None\<close> when there are at most three, the river is the card
  of the token at index 4, or \<open>None\<close> when there are at most four, and nothing else
  changes. On a line \<^verbatim>\<open>Board [c0 c1 ... ]\<close> the tokens found are exactly the bracketed
  two-character card texts, in order.
\<close>

theorem C8_board:
  assumes "getitem (sections st) (- 1) = Inr s" and "getitem (splitted st) (int s + 3) = Inr boardline"
  shows "(\<not> startswith boardline ''Board'' \<longrightarrow> parse_board env st = Inr st)
     \<and> (startswith boardline ''Board'' \<longrightarrow> parse_board env st = Inr st' \<longrightarrow>
          st' = st\<lparr>streets := (streets st)\<lparr>turn := turn (streets st'), river := river (streets st')\<rparr>\<rparr>
          \<and> (if 3 < length (findall board_re boardline)
              then \<exists>c. Card env (findall board_re boardline ! 3) = Inr c \<and> turn (streets st') = Some c
              else turn (streets st') = None)
          \<and> (if 4 < length (findall board_re boardline)
              then \<exists>c. Card env (findall board_re boardline ! 4) = Inr c \<and> river (streets st') = Some c
              else river (streets st') = None))
     \<and> (\<forall>ts. ts \<noteq> [] \<and> (\<forall>t \<in> set ts. card_token t) \<and> boardline = ''Board ['' @ joined ts @ '']''
          \<longrightarrow> startswith boardline ''Board'' \<and> findall board_re boardline = ts)"
proof (intro conjI impI allI)
  assume "\<not> startswith boardline ''Board''"
  with assms show "parse_board env st = Inr st"
    by (simp add: parse_board_def)
next
  assume b: "startswith boardline ''Board''" and r: "parse_board env st = Inr st'"
  note eq = r[unfolded parse_board_eq[OF assms b]]
  from eq show "st' = st\<lparr>streets := (streets st)\<lparr>turn := turn (streets st'), river := river (streets st')\<rparr>\<rparr>"
    by (auto split: sum.splits if_splits)
  from eq show "if 3 < length (findall board_re boardline)
      then \<exists>c. Card env (findall board_re boardline ! 3) = Inr c \<and> turn (streets st') = Some c
      else turn (streets st') = None"
    by (cases "Card env (findall board_re boardline ! 3)") (auto split: sum.splits if_splits)
  from eq show "if 4 < length (findall board_re boardline)
      then \<exists>c. Card env (findall board_re boardline ! 4) = Inr c \<and> river (streets st') = Some c
      else river (streets st') = None"
    by (cases "Card env (findall board_re boardline ! 4)") (auto split: sum.splits if_splits)
next
  fix ts
  assume a: "ts \<noteq> [] \<and> (\<forall>t \<in> set ts. card_token t) \<and> boardline = ''Board ['' @ joined ts @ '']''"
  then show "startswith boardline ''Board''" by simp
  from a findall_board[of ts] show "findall board_re boardline = ts" by simp
qed

lemma ex_parse_board:
  "parse_board ex_env ex_showdown_hand
     = Inr (ex_showdown_hand\<lparr>streets := (streets ex_showdown_hand)\<lparr>turn := Some ''5h'', river := Some ''6s''\<rparr>\<rparr>)"
  "parse_board ex_env ex_hand = Inr ex_hand"
  by code_simp+

theorem C8_board_witness:
  "getitem (splitted ex_showdown_hand) 4 = Inr ''Board [2s 3d 4c 5h 6s]''
   \<and> findall board_re ''Board [2s 3d 4c 5h 6s]'' = [''2s'', ''3d'', ''4c'', ''5h'', ''6s'']
   \<and> parse_board ex_env ex_showdown_hand
     = Inr (ex_showdown_hand\<lparr>streets := (streets ex_showdown_hand)\<lparr>turn := Some ''5h'', river := Some ''6s''\<rparr>\<rparr>)
   \<and> parse_board ex_env ex_hand = Inr ex_hand"
proof -
  have 1: "getitem (sections ex_showdown_hand) (- 1) = Inr 1"
    "getitem (splitted ex_showdown_hand) (int 1 + 3) = Inr ''Board [2s 3d 4c 5h 6s]''"
    by code_simp+
  have 2: "[''2s'', ''3d'', ''4c'', ''5h'', ''6s''] \<noteq> []
      \<and> (\<forall>t \<in> set [''2s'', ''3d'', ''4c'', ''5h'', ''6s'']. card_token t)
      \<and> ''Board [2s 3d 4c 5h 6s]'' = ''Board ['' @ joined [''2s'', ''3d'', ''4c'', ''5h'', ''6s''] @ '']''"
    by (simp add: card_token_def)
  from C8_board [OF 1, of ex_env] 2
  have 3: "findall board_re ''Board [2s 3d 4c 5h 6s]'' = [''2s'', ''3d'', ''4c'', ''5h'', ''6s'']"
    by blast
  have 4: "getitem (splitted ex_showdown_hand) 4 = Inr ''Board [2s 3d 4c 5h 6s]''"
    using 1(2) by simp
  from 3 4 ex_parse_board show ?thesis by simp
qed

section \<open>The header line\<close>

text \<open>One step through a sequence of patterns, for each kind of item of the header grammar.\<close>

lemma seqs_ConsD:
  assumes "(p'', r'', g'') \<in> set (rmatch (seqs (e # es)) (p, r, g))"
  shows "\<exists>p' r' g'. (p', r', g') \<in> set (rmatch e (p, r, g))
           \<and> (p'', r'', g'') \<in> set (rmatch (seqs es) (p', r', g'))"
proof (cases es)
  case Nil
  with assms show ?thesis by auto
next
  case (Cons a as)
  with assms show ?thesis by auto
qed

lemma step_Nil:
  "(p'', r'', g'') \<in> set (rmatch (seqs []) (p, r, g)) \<Longrightarrow> r'' = r \<and> g'' = g"
  by simp

lemma step_Bol:
  assumes "(p'', r'', g'') \<in> set (rmatch (seqs (Bol # es)) (p, r, g))"
  shows "\<exists>p'. (p'', r'', g'') \<in> set (rmatch (seqs es) (p', r, g))"
proof -
  from seqs_ConsD[OF assms] obtain p' r' g' where 1: "(p', r', g') \<in> set (rmatch Bol (p, r, g))"
    and 2: "(p'', r'', g'') \<in> set (rmatch (seqs es) (p', r', g'))" by blast
  from rmatch_BolD[OF 1] 2 show ?thesis by auto
qed

lemma step_Eol:
  assumes "(p'', r'', g'') \<in> set (rmatch (seqs (Eol # es)) (p, r, g))"
  shows "\<exists>p'. (r = [] \<or> r = [CHR 0x0A]) \<and> (p'', r'', g'') \<in> set (rmatch (seqs es) (p', r, g))"
proof -
  from seqs_ConsD[OF assms] obtain p' r' g' where 1: "(p', r', g') \<in> set (rmatch Eol (p, r, g))"
    and 2: "(p'', r'', g'') \<in> set (rmatch (seqs es) (p', r', g'))" by blast
  from rmatch_EolD[OF 1] 2 show ?thesis by auto
qed

lemma step_Lit:
  assumes "(p'', r'', g'') \<in> set (rmatch (seqs (Lit s # es)) (p, r, g))"
  shows "\<exists>p' r'. r = s @ r' \<and> (p'', r'', g'') \<in> set (rmatch (seqs es) (p', r', g))"
proof -
  from seqs_ConsD[OF assms] obtain p' r' g' where 1: "(p', r', g') \<in> set (rmatch (Lit s) (p, r, g))"
    and 2: "(p'', r'', g'') \<in> set (rmatch (seqs es) (p', r', g'))" by blast
  from rmatch_LitD[OF 1] 2 show ?thesis by auto
qed

lemma step_Many:
  assumes "(p'', r'', g'') \<in> set (rmatch (seqs (Many c # es)) (p, r, g))"
  shows "\<exists>p' pre r'. r = pre @ r' \<and> list_all (cls_match c) pre
        \<and> (p'', r'', g'') \<in> set (rmatch (seqs es) (p', r', g))"
proof -
  from seqs_ConsD[OF assms] obtain p' r' g' where 1: "(p', r', g') \<in> set (rmatch (Many c) (p, r, g))"
    and 2: "(p'', r'', g'') \<in> set (rmatch (seqs es) (p', r', g'))" by blast
  from rmatch_ManyD[OF 1] 2 show ?thesis by auto
qed

lemma step_Group_Many:
  assumes "(p'', r'', g'') \<in> set (rmatch (seqs (Group k (Many c) # es)) (p, r, g))"
  shows "\<exists>p' pre r'. r = pre @ r' \<and> list_all (cls_match c) pre
        \<and> (p'', r'', g'') \<in> set (rmatch (seqs es) (p', r', (k, pre) # g))"
proof -
  from seqs_ConsD[OF assms] obtain p' r' g' where
    1: "(p', r', g') \<in> set (rmatch (Group k (Many c)) (p, r, g))"
    and 2: "(p'', r'', g'') \<in> set (rmatch (seqs es) (p', r', g'))" by blast
  from rmatch_GroupD[OF 1] obtain h where 3: "(p', r', h) \<in> set (rmatch (Many c) (p, r, g))"
    and 4: "g' = (k, take (length r - length r') r) # h" by blast
  from rmatch_ManyD[OF 3] obtain pre where 5: "h = g" "r = pre @ r'" "list_all (cls_match c) pre"
    by blast
  have "take (length r - length r') r = pre" using 5(2) by simp
  with 2 4 5 show ?thesis by auto
qed

lemma step_Group_Lit:
  assumes "(p'', r'', g'') \<in> set (rmatch (seqs (Group k (Lit s) # es)) (p, r, g))"
  shows "\<exists>p' r'. r = s @ r' \<and> (p'', r'', g'') \<in> set (rmatch (seqs es) (p', r', (k, s) # g))"
proof -
  from seqs_ConsD[OF assms] obtain p' r' g' where
    1: "(p', r', g') \<in> set (rmatch (Group k (Lit s)) (p, r, g))"
    and 2: "(p'', r'', g'') \<in> set (rmatch (seqs es) (p', r', g'))" by blast
  from rmatch_GroupD[OF 1] obtain h where 3: "(p', r', h) \<in> set (rmatch (Lit s) (p, r, g))"
    and 4: "g' = (k, take (length r - length r') r) # h" by blast
  from rmatch_LitD[OF 3] have 5: "h = g" "r = s @ r'" by auto
  have "take (length r - length r') r = s" using 5(2) by simp
  with 2 4 5 show ?thesis by auto
qed

lemma step_Group_Alt:
  assumes "(p'', r'', g'') \<in> set (rmatch (seqs (Group k (Alt (Lit s) (Lit t)) # es)) (p, r, g))"
  shows "\<exists>p' u r'. (u = s \<or> u = t) \<and> r = u @ r'
        \<and> (p'', r'', g'') \<in> set (rmatch (seqs es) (p', r', (k, u) # g))"
proof -
  from seqs_ConsD[OF assms] obtain p' r' g' where
    1: "(p', r', g') \<in> set (rmatch (Group k (Alt (Lit s) (Lit t))) (p, r, g))"
    and 2: "(p'', r'', g'') \<in> set (rmatch (seqs es) (p', r', g'))" by blast
  from rmatch_GroupD[OF 1] obtain h where
    3: "(p', r', h) \<in> set (rmatch (Alt (Lit s) (Lit t)) (p, r, g))"
    and 4: "g' = (k, take (length r - length r') r) # h" by blast
  from rmatch_AltD[OF 3] obtain u where u: "u = s \<or> u = t"
    and 5: "(p', r', h) \<in> set (rmatch (Lit u) (p, r, g))" by blast
  from rmatch_LitD[OF 5] have 6: "h = g" "r = u @ r'" by auto
  have "take (length r - length r') r = u" using 6(2) by simp
  with 2 4 6 u show ?thesis by auto
qed

lemma amount_D:
  assumes "(p', r', g') \<in> set (rmatch (seqs [Many c, Lit s, Times n d]) (p, r, g))"
  shows "g' = g \<and> (\<exists>a b. r = a @ s @ b @ r' \<and> list_all (cls_match c) a
           \<and> length b = n \<and> list_all (cls_match d) b)"
proof -
  from assms obtain p1 r1 g1 p2 r2 g2 where
    1: "(p1, r1, g1) \<in> set (rmatch (Many c) (p, r, g))"
    and 2: "(p2, r2, g2) \<in> set (rmatch (Lit s) (p1, r1, g1))"
    and 3: "(p', r', g') \<in> set (rmatch (Times n d) (p2, r2, g2))"
    by auto
  from rmatch_ManyD[OF 1] rmatch_LitD[OF 2] rmatch_TimesD[OF 3]
  show ?thesis by auto
qed

lemma step_Group_amount:
  assumes "(p'', r'', g'') \<in> set (rmatch (seqs (Group k (seqs [Many c, Lit s, Times n d]) # es)) (p, r, g))"
  shows "\<exists>p' a b r'. r = (a @ s @ b) @ r' \<and> list_all (cls_match c) a
        \<and> length b = n \<and> list_all (cls_match d) b
        \<and> (p'', r'', g'') \<in> set (rmatch (seqs es) (p', r', (k, a @ s @ b) # g))"
proof -
  from seqs_ConsD[OF assms] obtain p' r' g' where
    1: "(p', r', g') \<in> set (rmatch (Group k (seqs [Many c, Lit s, Times n d])) (p, r, g))"
    and 2: "(p'', r'', g'') \<in> set (rmatch (seqs es) (p', r', g'))"
    by blast
  from rmatch_GroupD[OF 1] obtain h where
    3: "(p', r', h) \<in> set (rmatch (seqs [Many c, Lit s, Times n d]) (p, r, g))"
    and 4: "g' = (k, take (length r - length r') r) # h"
    by blast
  from amount_D[OF 3] obtain a b where 5: "h = g" "r = a @ s @ b @ r'"
    "list_all (cls_match c) a" "length b = n" "list_all (cls_match d) b"
    by blast
  have "take (length r - length r') r = a @ s @ b"
    using 5(2) by simp
  with 2 4 5 show ?thesis by auto
qed

lemmas header_steps = step_Bol step_Eol step_Lit step_Many step_Group_Many step_Group_Lit
  step_Group_Alt step_Group_amount

lemma cls_match_Digit: "cls_match Digit = is_digit"
  by (rule ext) simp

lemma header_re_shape:
  assumes "re_match header_re line = Some m"
  shows "\<exists>hid tid bd b2 rd r2 cur gm lvl sbv bbv loc dt e.
      line = ''PokerStars '' @ ''Hand #'' @ hid @ '': '' @ ''Tournament'' @ '' '' @ ''#'' @ tid
             @ '', '' @ ''$'' @ (bd @ ''.'' @ b2) @ ''+'' @ ''$'' @ (rd @ ''.'' @ r2) @ '' ''
             @ cur @ '' '' @ gm @ '' '' @ ''No Limit'' @ '' '' @ ''- Level '' @ lvl @ '' ''
             @ ''('' @ sbv @ ''/'' @ bbv @ '')'' @ '' '' @ ''- '' @ loc @ '' '' @ ''['' @ dt
             @ '']'' @ e
    \<and> list_all is_digit hid \<and> list_all is_digit tid
    \<and> list_all is_digit bd \<and> length b2 = 2 \<and> list_all is_digit b2
    \<and> list_all is_digit rd \<and> length r2 = 2 \<and> list_all is_digit r2
    \<and> (cur = ''USD'' \<or> cur = ''EUR'')
    \<and> match_group m ''ident'' = hid
    \<and> match_group m ''game_type'' = ''Tournament''
    \<and> match_group m ''tournament_ident'' = tid
    \<and> match_group m ''buyin'' = bd @ ''.'' @ b2
    \<and> match_group m ''rake'' = rd @ ''.'' @ r2
    \<and> match_group m ''currency'' = cur
    \<and> match_group m ''game'' = gm
    \<and> match_group m ''limit'' = ''No Limit''
    \<and> match_group m ''tournament_level'' = lvl
    \<and> match_group m ''sb'' = sbv
    \<and> match_group m ''bb'' = bbv
    \<and> match_group m ''date'' = dt"
proof -
  from re_matchD[OF assms] obtain p r where "(p, r, m) \<in> set (rmatch header_re (None, line, []))"
    by blast
  then show ?thesis
    unfolding header_re_def
    apply -
    apply ((drule header_steps, (elim exE conjE)?)+)
    apply (drule step_Nil)
    apply (elim conjE)
    apply hypsubst
    apply (intro exI conjI)
    apply (rule refl)
    apply (simp_all add: match_group_def cls_match_Digit)
    done
qed

lemma digits_prefix_unique:
  assumes "list_all is_digit a" "list_all is_digit b" "\<not> is_digit c" "\<not> is_digit d"
    and "a @ c # x = b @ d # y"
  shows "a = b \<and> c = d \<and> x = y"
  using assms
proof (induction a arbitrary: b)
  case Nil
  then show ?case by (cases b) auto
next
  case (Cons h a)
  show ?case
  proof (cases b)
    case Nil
    with Cons.prems show ?thesis by auto
  next
    case (Cons e b')
    with Cons.prems Cons.IH[of b'] show ?thesis by auto
  qed
qed

lemma header_ten_plus_one:
  assumes m: "re_match header_re line = Some m"
    and hid: "list_all is_digit hid" and tid: "list_all is_digit tid"
    and line: "line = ''PokerStars Hand #'' @ hid @ '': Tournament #'' @ tid
                 @ '', $10.00+$1.00 USD '' @ rest"
  shows "match_group m ''buyin'' = ''10.00'' \<and> match_group m ''rake'' = ''1.00''
         \<and> match_group m ''currency'' = ''USD''"
proof -
  from header_re_shape[OF m] obtain hid' tid' bd b2 rd r2 cur t where
    eq: "line = ''PokerStars '' @ ''Hand #'' @ hid' @ '': '' @ ''Tournament'' @ '' '' @ ''#'' @ tid'
             @ '', '' @ ''$'' @ (bd @ ''.'' @ b2) @ ''+'' @ ''$'' @ (rd @ ''.'' @ r2) @ '' ''
             @ cur @ '' '' @ t"
    and d: "list_all is_digit hid'" "list_all is_digit tid'" "list_all is_digit bd"
      "length b2 = 2" "list_all is_digit rd" "length r2 = 2"
    and cur: "cur = ''USD'' \<or> cur = ''EUR''"
    and g: "match_group m ''buyin'' = bd @ ''.'' @ b2" "match_group m ''rake'' = rd @ ''.'' @ r2"
      "match_group m ''currency'' = cur"
    by blast
  have nd: "\<not> is_digit CHR '':''" "\<not> is_digit CHR '',''" "\<not> is_digit CHR ''.''"
    and dd: "list_all is_digit ''10''" "list_all is_digit ''1''"
    by (simp_all add: is_digit_def)
  from eq line have 1: "hid' @ CHR '':'' # ('' Tournament #'' @ tid' @ '', $'' @ bd @ ''.'' @ b2
        @ ''+$'' @ rd @ ''.'' @ r2 @ '' '' @ cur @ '' '' @ t)
      = hid @ CHR '':'' # ('' Tournament #'' @ tid @ '', $10.00+$1.00 USD '' @ rest)"
    by simp
  from digits_prefix_unique[OF d(1) hid nd(1) nd(1) 1]
  have 2: "tid' @ CHR '','' # ('' $'' @ bd @ ''.'' @ b2 @ ''+$'' @ rd @ ''.'' @ r2 @ '' '' @ cur
        @ '' '' @ t)
      = tid @ CHR '','' # ('' $10.00+$1.00 USD '' @ rest)"
    by simp
  from digits_prefix_unique[OF d(2) tid nd(2) nd(2) 2]
  have 3: "bd @ CHR ''.'' # (b2 @ ''+$'' @ rd @ ''.'' @ r2 @ '' '' @ cur @ '' '' @ t)
      = ''10'' @ CHR ''.'' # (''00+$1.00 USD '' @ rest)"
    by simp
  from digits_prefix_unique[OF d(3) dd(1) nd(3) nd(3) 3]
  have bd: "bd = ''10''" and 4: "b2 @ ''+$'' @ rd @ ''.'' @ r2 @ '' '' @ cur @ '' '' @ t
      = ''00+$1.00 USD '' @ rest"
    by simp_all
  from d(4) obtain x y where b2: "b2 = [x, y]"
    by (cases b2 rule: remdups_adj.cases) auto
  from 4[unfolded b2] have b2': "b2 = ''00''"
    and 5: "rd @ CHR ''.'' # (r2 @ '' '' @ cur @ '' '' @ t) = ''1'' @ CHR ''.'' # (''00 USD '' @ rest)"
    by (simp_all add: b2)
  from digits_prefix_unique[OF d(5) dd(2) nd(3) nd(3) 5]
  have rd: "rd = ''1''" and 6: "r2 @ '' '' @ cur @ '' '' @ t = ''00 USD '' @ rest"
    by simp_all
  from d(6) obtain u v where r2: "r2 = [u, v]"
    by (cases r2 rule: remdups_adj.cases) auto
  from 6[unfolded r2] have r2': "r2 = ''00''" and 7: "cur @ '' '' @ t = ''USD '' @ rest"
    by (simp_all add: r2)
  from cur 7 have "cur = ''USD''" by auto
  with g bd b2' rd r2' show ?thesis by simp
qed

lemma parse_header_Inr_line:
  assumes "getitem (splitted st) 0 = Inr line" and "re_match header_re line = Some m"
    and "parse_header env st = Inr st'"
  shows "\<exists>v1 v2 v3 v4 v5 v6 v7 v8 v9.
      GameType env (match_group m ''game_type'') = Inr v1
    \<and> Decimal env (match_group m ''sb'') = Inr v2
    \<and> Decimal env (match_group m ''bb'') = Inr v3
    \<and> Decimal env (match_group m ''buyin'') = Inr v4
    \<and> Decimal env (match_group m ''rake'') = Inr v5
    \<and> parse_date_value env (match_group m ''date'') = Inr v6
    \<and> Game env (match_group m ''game'') = Inr v7
    \<and> Limit env (match_group m ''limit'') = Inr v8
    \<and> Currency env (match_group m ''currency'') = Inr v9
    \<and> st' = st\<lparr>header := (header st)\<lparr>
              game_type := Some v1, sb := Some v2, bb := Some v3, buyin := Some v4,
              rake := Some v5, date := Some v6, game := Some v7, limit := Some v8,
              ident := Some (match_group m ''ident''),
              tournament_ident := Some (match_group m ''tournament_ident''),
              tournament_level := Some (match_group m ''tournament_level''),
              currency := Some v9, header_parsed := True\<rparr>\<rparr>"
  using parse_header_Inr[OF assms(3)] assms(1,2) by auto

text \<open>
  Claim C7, as the code has it. For a first line that matches the header grammar,
  \<^verbatim>\<open>parse_header\<close> returns exactly when \<^verbatim>\<open>GameType\<close>, \<^verbatim>\<open>Decimal\<close> (on the texts of both
  blinds, the buy-in and the rake), the date parser, \<^verbatim>\<open>Game\<close>, \<^verbatim>\<open>Limit\<close> and
  \<^verbatim>\<open>Currency\<close> all accept the texts of their groups, and then every field holds the
  value its converter gave for the text of its group (the three identifiers hold the
  texts themselves) and nothing else changes. The buy-in and the rake text of a
  matching line are digits, a point and two digits, the currency text is \<^verbatim>\<open>USD\<close> or
  \<^verbatim>\<open>EUR\<close>. On a line whose buy-in segment is \<^verbatim>\<open>$10.00+$1.00 USD\<close> the three texts are
  \<^verbatim>\<open>10.00\<close>, \<^verbatim>\<open>1.00\<close> and \<^verbatim>\<open>USD\<close>, so that the fields are the decimals of 10.00 and
  1.00 and the currency of USD.
\<close>

theorem C7_header:
  assumes "getitem (splitted st) 0 = Inr line" and "re_match header_re line = Some m"
  shows "(\<forall>v1 v2 v3 v4 v5 v6 v7 v8 v9.
            GameType env (match_group m ''game_type'') = Inr v1
          \<and> Decimal env (match_group m ''sb'') = Inr v2
          \<and> Decimal env (match_group m ''bb'') = Inr v3
          \<and> Decimal env (match_group m ''buyin'') = Inr v4
          \<and> Decimal env (match_group m ''rake'') = Inr v5
          \<and> parse_date_value env (match_group m ''date'') = Inr v6
          \<and> Game env (match_group m ''game'') = Inr v7
          \<and> Limit env (match_group m ''limit'') = Inr v8
          \<and> Currency env (match_group m ''currency'') = Inr v9
          \<longrightarrow> parse_header env st = Inr (st\<lparr>header := (header st)\<lparr>
                  game_type := Some v1, sb := Some v2, bb := Some v3, buyin := Some v4,
                  rake := Some v5, date := Some v6, game := Some v7, limit := Some v8,
                  ident := Some (match_group m ''ident''),
                  tournament_ident := Some (match_group m ''tournament_ident''),
                  tournament_level := Some (match_group m ''tournament_level''),
                  currency := Some v9, header_parsed := True\<rparr>\<rparr>))
     \<and> (\<forall>st'. parse_header env st = Inr st' \<longrightarrow>
          (\<exists>v1 v2 v3 v4 v5 v6 v7 v8 v9.
              GameType env (match_group m ''game_type'') = Inr v1
            \<and> Decimal env (match_group m ''sb'') = Inr v2
            \<and> Decimal env (match_group m ''bb'') = Inr v3
            \<and> Decimal env (match_group m ''buyin'') = Inr v4
            \<and> Decimal env (match_group m ''rake'') = Inr v5
            \<and> parse_date_value env (match_group m ''date'') = Inr v6
            \<and> Game env (match_group m ''game'') = Inr v7
            \<and> Limit env (match_group m ''limit'') = Inr v8
            \<and> Currency env (match_group m ''currency'') = Inr v9
            \<and> st' = st\<lparr>header := (header st)\<lparr>
                  game_type := Some v1, sb := Some v2, bb := Some v3, buyin := Some v4,
                  rake := Some v5, date := Some v6, game := Some v7, limit := Some v8,
                  ident := Some (match_group m ''ident''),
                  tournament_ident := Some (match_group m ''tournament_ident''),
                  tournament_level := Some (match_group m ''tournament_level''),
                  currency := Some v9, header_parsed := True\<rparr>\<rparr>))
     \<and> (\<exists>bd b2. match_group m ''buyin'' = bd @ ''.'' @ b2
            \<and> list_all is_digit bd \<and> list_all is_digit b2 \<and> length b2 = 2)
     \<and> (\<exists>rd r2. match_group m ''rake'' = rd @ ''.'' @ r2
            \<and> list_all is_digit rd \<and> list_all is_digit r2 \<and> length r2 = 2)
     \<and> (match_group m ''currency'' = ''USD'' \<or> match_group m ''currency'' = ''EUR'')
     \<and> match_group m ''game_type'' = ''Tournament''
     \<and> match_group m ''limit'' = ''No Limit''
     \<and> (\<forall>hid tid rest. list_all is_digit hid \<and> list_all is_digit tid
            \<and> line = ''PokerStars Hand #'' @ hid @ '': Tournament #'' @ tid
                       @ '', $10.00+$1.00 USD '' @ rest
          \<longrightarrow> match_group m ''buyin'' = ''10.00'' \<and> match_group m ''rake'' = ''1.00''
            \<and> match_group m ''currency'' = ''USD''
            \<and> (\<forall>st'. parse_header env st = Inr st' \<longrightarrow>
                  (\<exists>vb vr vc. Decimal env ''10.00'' = Inr vb \<and> buyin (header st') = Some vb
                     \<and> Decimal env ''1.00'' = Inr vr \<and> rake (header st') = Some vr
                     \<and> Currency env ''USD'' = Inr vc \<and> currency (header st') = Some vc)))"
proof -
  have 1: "\<forall>v1 v2 v3 v4 v5 v6 v7 v8 v9.
            GameType env (match_group m ''game_type'') = Inr v1
          \<and> Decimal env (match_group m ''sb'') = Inr v2
          \<and> Decimal env (match_group m ''bb'') = Inr v3
          \<and> Decimal env (match_group m ''buyin'') = Inr v4
          \<and> Decimal env (match_group m ''rake'') = Inr v5
          \<and> parse_date_value env (match_group m ''date'') = Inr v6
          \<and> Game env (match_group m ''game'') = Inr v7
          \<and> Limit env (match_group m ''limit'') = Inr v8
          \<and> Currency env (match_group m ''currency'') = Inr v9
          \<longrightarrow> parse_header env st = Inr (st\<lparr>header := (header st)\<lparr>
                  game_type := Some v1, sb := Some v2, bb := Some v3, buyin := Some v4,
                  rake := Some v5, date := Some v6, game := Some v7, limit := Some v8,
                  ident := Some (match_group m ''ident''),
                  tournament_ident := Some (match_group m ''tournament_ident''),
                  tournament_level := Some (match_group m ''tournament_level''),
                  currency := Some v9, header_parsed := True\<rparr>\<rparr>)"
    using assms by (simp add: parse_header_def)
  have 2: "\<forall>st'. parse_header env st = Inr st' \<longrightarrow>
          (\<exists>v1 v2 v3 v4 v5 v6 v7 v8 v9.
              GameType env (match_group m ''game_type'') = Inr v1
            \<and> Decimal env (match_group m ''sb'') = Inr v2
            \<and> Decimal env (match_group m ''bb'') = Inr v3
            \<and> Decimal env (match_group m ''buyin'') = Inr v4
            \<and> Decimal env (match_group m ''rake'') = Inr v5
            \<and> parse_date_value env (match_group m ''date'') = Inr v6
            \<and> Game env (match_group m ''game'') = Inr v7
            \<and> Limit env (match_group m ''limit'') = Inr v8
            \<and> Currency env (match_group m ''currency'') = Inr v9
            \<and> st' = st\<lparr>header := (header st)\<lparr>
                  game_type := Some v1, sb := Some v2, bb := Some v3, buyin := Some v4,
                  rake := Some v5, date := Some v6, game := Some v7, limit := Some v8,
                  ident := Some (match_group m ''ident''),
                  tournament_ident := Some (match_group m ''tournament_ident''),
                  tournament_level := Some (match_group m ''tournament_level''),
                  currency := Some v9, header_parsed := True\<rparr>\<rparr>)"
    using parse_header_Inr_line[OF assms] by blast
  from header_re_shape[OF assms(2)] obtain bd b2 rd r2 where
    s: "match_group m ''buyin'' = bd @ ''.'' @ b2" "list_all is_digit bd" "list_all is_digit b2"
       "length b2 = 2"
       "match_group m ''rake'' = rd @ ''.'' @ r2" "list_all is_digit rd" "list_all is_digit r2"
       "length r2 = 2"
       "match_group m ''currency'' = ''USD'' \<or> match_group m ''currency'' = ''EUR''"
       "match_group m ''game_type'' = ''Tournament''" "match_group m ''limit'' = ''No Limit''"
    by auto
  have 3: "\<exists>bd b2. match_group m ''buyin'' = bd @ ''.'' @ b2
            \<and> list_all is_digit bd \<and> list_all is_digit b2 \<and> length b2 = 2"
    using s(1-4) by blast
  have 4: "\<exists>rd r2. match_group m ''rake'' = rd @ ''.'' @ r2
            \<and> list_all is_digit rd \<and> list_all is_digit r2 \<and> length r2 = 2"
    using s(5-8) by blast
  have 5: "match_group m ''buyin'' = ''10.00'' \<and> match_group m ''rake'' = ''1.00''
            \<and> match_group m ''currency'' = ''USD''
            \<and> (\<forall>st'. parse_header env st = Inr st' \<longrightarrow>
                  (\<exists>vb vr vc. Decimal env ''10.00'' = Inr vb \<and> buyin (header st') = Some vb
                     \<and> Decimal env ''1.00'' = Inr vr \<and> rake (header st') = Some vr
                     \<and> Currency env ''USD'' = Inr vc \<and> currency (header st') = Some vc))"
    if h: "list_all is_digit hid \<and> list_all is_digit tid
            \<and> line = ''PokerStars Hand #'' @ hid @ '': Tournament #'' @ tid
                       @ '', $10.00+$1.00 USD '' @ rest" for hid tid rest
  proof -
    from h header_ten_plus_one[OF assms(2), of hid tid rest]
    have g: "match_group m ''buyin'' = ''10.00''" "match_group m ''rake'' = ''1.00''"
      "match_group m ''currency'' = ''USD''" by blast+
    have "\<exists>vb vr vc. Decimal env ''10.00'' = Inr vb \<and> buyin (header st') = Some vb
                     \<and> Decimal env ''1.00'' = Inr vr \<and> rake (header st') = Some vr
                     \<and> Currency env ''USD'' = Inr vc \<and> currency (header st') = Some vc"
      if "parse_header env st = Inr st'" for st'
      using parse_header_Inr_line[OF assms that] unfolding g by auto
    with g show ?thesis by blast
  qed
  from 1 2 3 4 5 s(9-11) show ?thesis by blast
qed

definition ex_bad_header_line :: string where
  "ex_bad_header_line =
     ''PokerStars Hand #105024000105: Tournament #797469411, $10.00+$1.00 USD Hold'' @ [CHR 0x27]
     @ ''em No Limit - Level I (x/20) - 2013/10/04 19:18:18 CET [2013/10/04 13:18:18 ET]''"

theorem C7_header_witness:
  "re_match header_re ex_header_line \<noteq> None
   \<and> parse_header ex_env ex_hand = Inr ex_hand_hdr
   \<and> buyin (header ex_hand_hdr) = Some (1000, - 2)
   \<and> rake (header ex_hand_hdr) = Some (100, - 2)
   \<and> currency (header ex_hand_hdr) = Some ''USD''
   \<and> Decimal ex_env ''10.00'' = Inr (1000, - 2)
   \<and> Decimal ex_env ''1.00'' = Inr (100, - 2)"
proof -
  have 1: "getitem (splitted ex_hand) 0 = Inr ex_header_line"
    by code_simp
  have 2: "re_match header_re ex_header_line
     = Some [(''date'', ''2013/10/04 13:18:18 ET''), (''bb'', ''20''), (''sb'', ''10''),
             (''tournament_level'', ''I''), (''limit'', ''No Limit''),
             (''game'', ''Hold'' @ [CHR 0x27] @ ''em''), (''currency'', ''USD''),
             (''rake'', ''1.00''), (''buyin'', ''10.00''), (''tournament_ident'', ''797469411''),
             (''game_type'', ''Tournament''), (''ident'', ''105024000105'')]"
    by code_simp
  have 3: "list_all is_digit ''105024000105'' \<and> list_all is_digit ''797469411''
      \<and> ex_header_line = ''PokerStars Hand #'' @ ''105024000105'' @ '': Tournament #''
          @ ''797469411'' @ '', $10.00+$1.00 USD ''
          @ (''Hold'' @ [CHR 0x27]
             @ ''em No Limit - Level I (10/20) - 2013/10/04 19:18:18 CET [2013/10/04 13:18:18 ET]'')"
    by (simp add: is_digit_def ex_header_line_def)
  have 4: "Decimal ex_env ''10.00'' = Inr (1000, - 2)" "Decimal ex_env ''1.00'' = Inr (100, - 2)"
    "Currency ex_env ''USD'' = Inr ''USD''"
    by code_simp+
  from C7_header [OF 1 2, of ex_env] 3 ex_parse_header 4
  have "buyin (header ex_hand_hdr) = Some (1000, - 2)" "rake (header ex_hand_hdr) = Some (100, - 2)"
    "currency (header ex_hand_hdr) = Some ''USD''"
    by (metis sum.inject(2))+
  with 2 ex_parse_header 4 show ?thesis by simp
qed

text \<open>
  A first line with the blinds \<^verbatim>\<open>(x/20)\<close> matches the header grammar, whose group
  for the small blind takes any text; \<^verbatim>\<open>Decimal\<close> rejects the text \<^verbatim>\<open>x\<close>, and
  \<^verbatim>\<open>parse_header\<close> raises instead of decoding the groups.
\<close>

theorem C7_counterexample:
  "re_match header_re ex_bad_header_line
     = Some [(''date'', ''2013/10/04 13:18:18 ET''), (''bb'', ''20''), (''sb'', ''x''),
             (''tournament_level'', ''I''), (''limit'', ''No Limit''),
             (''game'', ''Hold'' @ [CHR 0x27] @ ''em''), (''currency'', ''USD''),
             (''rake'', ''1.00''), (''buyin'', ''10.00''), (''tournament_ident'', ''797469411''),
             (''game_type'', ''Tournament''), (''ident'', ''105024000105'')]
   \<and> Decimal ex_env ''x'' = Inl (LibraryError ''InvalidOperation'')
   \<and> parse_header ex_env (ex_hand\<lparr>splitted := [ex_bad_header_line]\<rparr>)
       = Inl (LibraryError ''InvalidOperation'')"
  by code_simp

end
